theory Spec2Isabelle
  imports Main "HOL-Library.Char_ord" "HOL-Library.List_Lexorder"
begin

section \<open>Data model (lib/types.ts)\<close>

text \<open>
  The \<^verbatim>\<open>Task\<close> type inferred from \<^verbatim>\<open>TaskSchema\<close>. An optional property is an
  \<open>option\<close>: \<open>None\<close> is what reading it gives when it is \<^verbatim>\<open>undefined\<close>.
  \<^verbatim>\<open>description\<close> and \<^verbatim>\<open>assigned_to\<close> are optional and nullable, so they have three
  cases. The server identifier \<^verbatim>\<open>id\<close> is the field \<open>task_id\<close>. A string is the list
  of the bytes of its UTF-8 form.

  An object may have a property with the value \<^verbatim>\<open>undefined\<close>. It reads like a missing
  property, but an object spread copies it. \<open>undefined_props\<close> names the optional
  properties that an object has in this way; it counts only for a property whose field
  is \<open>None\<close> (or \<open>Undefined\<close>), so an assignment of a value needs no bookkeeping.
\<close>

datatype task_status = Pending | In_progress | Completed

datatype sync_status = Synced | Pending_create | Pending_update | Pending_delete

datatype 'a nullable = Undefined | Null | Defined 'a

datatype task_prop =
    P_id | P_local_id | P_description | P_assigned_to | P_is_deleted | P_created_at
  | P_updated_at | P_sync_status

record task =
  task_id :: "string option"
  local_id :: "string option"
  title :: string
  description :: "string nullable"
  assigned_to :: "string nullable"
  status :: task_status
  is_deleted :: "bool option"
  created_at :: "string option"
  updated_at :: "string option"
  sync_status :: "sync_status option"
  undefined_props :: "task_prop set"

text \<open>JavaScript truthiness of an optional string: \<^verbatim>\<open>undefined\<close> and \<^verbatim>\<open>''\<close> are falsy.\<close>

definition truthy :: "string option \<Rightarrow> bool" where
  "truthy v = (case v of None \<Rightarrow> False | Some s \<Rightarrow> s \<noteq> [])"

text \<open>
  \<^verbatim>\<open>String.prototype.trim\<close> strips the white space and line terminators of
  ECMAScript from both ends. In UTF-8 these are the six ASCII characters U+0009 to
  U+000D and U+0020, the two bytes of U+00A0, and the three bytes of U+1680, U+2000 to
  U+200A, U+2028, U+2029, U+202F, U+205F, U+3000 and U+FEFF.
\<close>

definition is_ws1 :: "char \<Rightarrow> bool" where
  "is_ws1 c = (c \<in> {CHR 0x09, CHR 0x0A, CHR 0x0B, CHR 0x0C, CHR 0x0D, CHR 0x20})"

definition is_ws2 :: "char \<Rightarrow> char \<Rightarrow> bool" where
  "is_ws2 c d = (c = CHR 0xC2 \<and> d = CHR 0xA0)"

definition is_ws3 :: "char \<Rightarrow> char \<Rightarrow> char \<Rightarrow> bool" where
  "is_ws3 c d e =
     ((c = CHR 0xE1 \<and> d = CHR 0x9A \<and> e = CHR 0x80) \<or>
      (c = CHR 0xE2 \<and> d = CHR 0x80 \<and>
         e \<in> {CHR 0x80, CHR 0x81, CHR 0x82, CHR 0x83, CHR 0x84, CHR 0x85, CHR 0x86,
              CHR 0x87, CHR 0x88, CHR 0x89, CHR 0x8A, CHR 0xA8, CHR 0xA9, CHR 0xAF}) \<or>
      (c = CHR 0xE2 \<and> d = CHR 0x81 \<and> e = CHR 0x9F) \<or>
      (c = CHR 0xE3 \<and> d = CHR 0x80 \<and> e = CHR 0x80) \<or>
      (c = CHR 0xEF \<and> d = CHR 0xBB \<and> e = CHR 0xBF))"

fun trimStart :: "string \<Rightarrow> string" where
  "trimStart (c # d # e # cs) =
     (if is_ws1 c then trimStart (d # e # cs)
      else if is_ws2 c d then trimStart (e # cs)
      else if is_ws3 c d e then trimStart cs
      else c # d # e # cs)"
| "trimStart [c, d] =
     (if is_ws1 c then trimStart [d] else if is_ws2 c d then [] else [c, d])"
| "trimStart [c] = (if is_ws1 c then [] else [c])"
| "trimStart [] = []"

text \<open>The same from the end, on the reversed string (the last byte comes first).\<close>

fun trimEnd_rev :: "string \<Rightarrow> string" where
  "trimEnd_rev (e # d # c # cs) =
     (if is_ws1 e then trimEnd_rev (d # c # cs)
      else if is_ws2 d e then trimEnd_rev (c # cs)
      else if is_ws3 c d e then trimEnd_rev cs
      else e # d # c # cs)"
| "trimEnd_rev [e, d] =
     (if is_ws1 e then trimEnd_rev [d] else if is_ws2 d e then [] else [e, d])"
| "trimEnd_rev [e] = (if is_ws1 e then [] else [e])"
| "trimEnd_rev [] = []"

definition trim :: "string \<Rightarrow> string" where
  "trim s = rev (trimEnd_rev (rev (trimStart s)))"

text \<open>
  Object spread \<^verbatim>\<open>{ ...a, ...b }\<close> on tasks: every property that \<open>b\<close> has wins, also
  one it has with the value \<^verbatim>\<open>undefined\<close>; the others come from \<open>a\<close>. \<^verbatim>\<open>title\<close> and
  \<^verbatim>\<open>status\<close> are required properties of a \<^verbatim>\<open>Task\<close>, so \<open>b\<close> always has them. The first
  argument of \<open>over\<close> tells whether \<open>b\<close> has the property with the value
  \<^verbatim>\<open>undefined\<close>.
\<close>

definition over :: "bool \<Rightarrow> 'a option \<Rightarrow> 'a option \<Rightarrow> 'a option" where
  "over b_has_undefined a b =
     (case b of None \<Rightarrow> if b_has_undefined then None else a | Some v \<Rightarrow> Some v)"

definition over_nullable :: "bool \<Rightarrow> 'a nullable \<Rightarrow> 'a nullable \<Rightarrow> 'a nullable" where
  "over_nullable b_has_undefined a b =
     (case b of Undefined \<Rightarrow> if b_has_undefined then Undefined else a | _ \<Rightarrow> b)"

definition spread :: "task \<Rightarrow> task \<Rightarrow> task" where
  "spread a b =
     \<lparr> task_id = over (P_id \<in> undefined_props b) (task_id a) (task_id b),
       local_id = over (P_local_id \<in> undefined_props b) (local_id a) (local_id b),
       title = title b,
       description =
         over_nullable (P_description \<in> undefined_props b) (description a) (description b),
       assigned_to =
         over_nullable (P_assigned_to \<in> undefined_props b) (assigned_to a) (assigned_to b),
       status = status b,
       is_deleted = over (P_is_deleted \<in> undefined_props b) (is_deleted a) (is_deleted b),
       created_at = over (P_created_at \<in> undefined_props b) (created_at a) (created_at b),
       updated_at = over (P_updated_at \<in> undefined_props b) (updated_at a) (updated_at b),
       sync_status =
         over (P_sync_status \<in> undefined_props b) (sync_status a) (sync_status b),
       undefined_props = undefined_props a \<union> undefined_props b \<rparr>"

section \<open>The object store (lib/indexedDB.ts, getDB)\<close>

text \<open>
  The object store \<^verbatim>\<open>tasks\<close> has the key path \<^verbatim>\<open>local_id\<close> and a unique index on
  \<^verbatim>\<open>id\<close>. It is modelled as the list of its records; a record without an \<^verbatim>\<open>id\<close> is
  not in the index. The list is in the order of first insertion; what IndexedDB
  returns in key order (\<^verbatim>\<open>getAll\<close> on the store or on an index) is sorted by
  \<open>in_key_order\<close>: string keys compare unit by unit, a proper prefix first. The
  functions of this section work on an opened database.
\<close>

type_synonym store = "task list"

datatype db_error = ConstraintError | DataError | StorageFailure

definition store_get :: "string \<Rightarrow> store \<Rightarrow> task option" where
  "store_get k s = find (\<lambda>r. local_id r = Some k) s"

definition index_get :: "string \<Rightarrow> store \<Rightarrow> task option" where
  "index_get sid s = find (\<lambda>r. task_id r = Some sid) s"

fun put_rec :: "task \<Rightarrow> store \<Rightarrow> store" where
  "put_rec t [] = [t]"
| "put_rec t (r # rs) = (if local_id r = local_id t then t # rs else r # put_rec t rs)"

text \<open>
  \<^verbatim>\<open>put\<close>: a value without a key is a \<^verbatim>\<open>DataError\<close>; a value whose \<^verbatim>\<open>id\<close> is held by a
  record under another key violates the unique index (\<^verbatim>\<open>ConstraintError\<close>), and the
  transaction is aborted, which leaves the store as it was.
\<close>

definition violates_index :: "task \<Rightarrow> store \<Rightarrow> bool" where
  "violates_index t s =
     (task_id t \<noteq> None \<and> (\<exists>r \<in> set s. task_id r = task_id t \<and> local_id r \<noteq> local_id t))"

definition store_put :: "task \<Rightarrow> store \<Rightarrow> db_error + store" where
  "store_put t s =
     (case local_id t of
        None \<Rightarrow> Inl DataError
      | Some k \<Rightarrow> if violates_index t s then Inl ConstraintError else Inr (put_rec t s))"

definition key_of :: "task \<Rightarrow> string" where
  "key_of r = (case local_id r of None \<Rightarrow> [] | Some k \<Rightarrow> k)"

definition in_key_order :: "task list \<Rightarrow> task list" where
  "in_key_order rs = sort_key key_of rs"

definition store_delete :: "string \<Rightarrow> store \<Rightarrow> store" where
  "store_delete k s = filter (\<lambda>r. local_id r \<noteq> Some k) s"

text \<open>
  What IndexedDB guarantees of every state of the store: one record per key, one
  record per indexed \<^verbatim>\<open>id\<close>. Every key is a non-empty string: saveTask and
  bulkSaveTasks write under a \<^verbatim>\<open>local_id\<close> that passed a truthiness test, and the sync
  engine calls updateTaskAfterSync with such a \<^verbatim>\<open>local_id\<close> only.
\<close>

definition wf_store :: "store \<Rightarrow> bool" where
  "wf_store s =
     ((\<forall>r \<in> set s. truthy (local_id r)) \<and> distinct (map local_id s) \<and>
      (\<forall>r \<in> set s. \<forall>r' \<in> set s.
          task_id r \<noteq> None \<and> task_id r = task_id r' \<longrightarrow> local_id r = local_id r'))"

section \<open>The local store operations (lib/indexedDB.ts, offlineDB)\<close>

text \<open>
  The readings one call takes from its environment: \<^verbatim>\<open>Date.now()\<close> in decimal, the
  seven characters of \<^verbatim>\<open>Math.random().toString(36).substring(2, 9)\<close>, and the first and
  second \<^verbatim>\<open>new Date().toISOString()\<close>.
\<close>

record readings =
  date_now :: string
  random36 :: string
  iso1 :: string
  iso2 :: string

definition getAllTasks :: "store \<Rightarrow> task list" where
  "getAllTasks s =
     filter (\<lambda>t. \<not> (is_deleted t = Some True \<and> sync_status t = Some Synced))
       (in_key_order s)"

definition getTaskByLocalId :: "string \<Rightarrow> store \<Rightarrow> task option" where
  "getTaskByLocalId k s = (if k = [] then None else store_get k s)"

definition getTaskByServerId :: "string \<Rightarrow> store \<Rightarrow> task option" where
  "getTaskByServerId sid s = (if sid = [] then None else index_get sid s)"

text \<open>saveTask, step 1: synthesize a \<^verbatim>\<open>local_id\<close> when the input has none.\<close>

definition lacks_local_id :: "task \<Rightarrow> bool" where
  "lacks_local_id t = (case local_id t of None \<Rightarrow> True | Some l \<Rightarrow> l = [] \<or> trim l = [])"

definition baseForLocalId :: "readings \<Rightarrow> task \<Rightarrow> string" where
  "baseForLocalId c t =
     (case task_id t of
        None \<Rightarrow> ''new_'' @ date_now c
      | Some i \<Rightarrow> if i \<noteq> [] \<and> trim i \<noteq> [] then i else ''new_'' @ date_now c)"

definition ensure_local_id :: "readings \<Rightarrow> task \<Rightarrow> task" where
  "ensure_local_id c t =
     (if lacks_local_id t
      then t\<lparr>local_id := Some (''local_'' @ baseForLocalId c t @ ''_'' @ random36 c)\<rparr>
      else t)"

text \<open>
  Step 2, shared by saveTask and bulkSaveTasks: when a record with the same server
  \<^verbatim>\<open>id\<close> exists under another \<^verbatim>\<open>local_id\<close>, reuse that \<^verbatim>\<open>local_id\<close>.
\<close>

definition consolidate :: "store \<Rightarrow> task \<Rightarrow> task" where
  "consolidate s t =
     (case task_id t of
        None \<Rightarrow> t
      | Some i \<Rightarrow>
          if i = [] then t
          else (case index_get i s of
                  None \<Rightarrow> t
                | Some e \<Rightarrow>
                    if truthy (local_id e) \<and> local_id e \<noteq> local_id t
                    then t\<lparr>local_id := local_id e\<rparr> else t))"

text \<open>Step 3 of saveTask: \<^verbatim>\<open>sync_status\<close> and the timestamps.\<close>

definition mark_new :: "readings \<Rightarrow> task \<Rightarrow> task" where
  "mark_new c t =
     (if \<not> truthy (task_id t) \<and> sync_status t \<noteq> Some Pending_create
      then (let t' = t\<lparr>sync_status := Some Pending_create\<rparr>
            in if \<not> truthy (created_at t') then t'\<lparr>created_at := Some (iso1 c)\<rparr> else t')
      else t)"

definition stamp :: "readings \<Rightarrow> task \<Rightarrow> task" where
  "stamp c t =
     (let t1 = t\<lparr>updated_at := Some (iso2 c)\<rparr>;
          t2 = (if \<not> truthy (created_at t1) then t1\<lparr>created_at := updated_at t1\<rparr> else t1)
      in if sync_status t2 = None then t2\<lparr>sync_status := Some Synced\<rparr> else t2)"

definition taskToSave :: "readings \<Rightarrow> task \<Rightarrow> store \<Rightarrow> task" where
  "taskToSave c taskInput s = stamp c (mark_new c (consolidate s (ensure_local_id c taskInput)))"

definition saveTask :: "readings \<Rightarrow> task \<Rightarrow> store \<Rightarrow> db_error + (string \<times> store)" where
  "saveTask c taskInput s =
     (let t = taskToSave c taskInput s
      in case store_put t s of
           Inl e \<Rightarrow> Inl e
         | Inr s' \<Rightarrow> (case local_id t of None \<Rightarrow> Inl DataError | Some k \<Rightarrow> Inr (k, s')))"

text \<open>
  bulkSaveTasks: one iteration of the loop, then the loop inside one transaction. Each
  task comes with the readings its iteration takes. A failed \<^verbatim>\<open>put\<close> rejects the call
  and aborts the transaction, so no write of the batch is kept.
\<close>

definition bulk_local_id :: "readings \<Rightarrow> task \<Rightarrow> task" where
  "bulk_local_id c t =
     (if \<not> truthy (local_id t)
      then t\<lparr>local_id :=
               (if truthy (task_id t) then task_id t
                else Some (''local_new_'' @ date_now c @ ''_'' @ random36 c))\<rparr>
      else t)"

definition bulk_stamp :: "readings \<Rightarrow> task \<Rightarrow> task" where
  "bulk_stamp c t =
     (let t1 = (if \<not> truthy (updated_at t) then t\<lparr>updated_at := Some (iso1 c)\<rparr> else t);
          t2 = (if \<not> truthy (created_at t1) then t1\<lparr>created_at := updated_at t1\<rparr> else t1);
          t3 = (if truthy (task_id t2) \<and> sync_status t2 = None
                then t2\<lparr>sync_status := Some Synced\<rparr> else t2)
      in if sync_status t3 = None then t3\<lparr>sync_status := Some Synced\<rparr> else t3)"

definition bulkTaskToSave :: "readings \<Rightarrow> task \<Rightarrow> store \<Rightarrow> task" where
  "bulkTaskToSave c t s = bulk_stamp c (consolidate s (bulk_local_id c t))"

fun bulk_loop :: "(readings \<times> task) list \<Rightarrow> store \<Rightarrow> db_error + store" where
  "bulk_loop [] s = Inr s"
| "bulk_loop ((c, t) # rest) s =
     (case store_put (bulkTaskToSave c t s) s of
        Inl e \<Rightarrow> Inl e
      | Inr s' \<Rightarrow> bulk_loop rest s')"

definition bulkSaveTasks :: "(readings \<times> task) list \<Rightarrow> store \<Rightarrow> db_error + store" where
  "bulkSaveTasks tasks s = bulk_loop tasks s"

definition deleteTask :: "string \<Rightarrow> store \<Rightarrow> store" where
  "deleteTask k s = store_delete k s"

definition by_sync_status :: "sync_status \<Rightarrow> store \<Rightarrow> task list" where
  "by_sync_status st s = in_key_order (filter (\<lambda>t. sync_status t = Some st) s)"

definition getPendingChanges :: "store \<Rightarrow> task list" where
  "getPendingChanges s =
     by_sync_status Pending_create s @ by_sync_status Pending_update s @
     by_sync_status Pending_delete s"

text \<open>
  updateTaskAfterSync. \<open>now\<close> is the reading of \<^verbatim>\<open>new Date().toISOString()\<close>. The
  merged task is the local record (when there is one) overlaid by the server's
  properties, then \<^verbatim>\<open>local_id\<close>, \<^verbatim>\<open>sync_status\<close> and \<^verbatim>\<open>updated_at\<close>.
\<close>

definition overlay :: "task option \<Rightarrow> task \<Rightarrow> task" where
  "overlay taskThatWasSynced serverTaskData =
     (case taskThatWasSynced of
        None \<Rightarrow> serverTaskData
      | Some l \<Rightarrow> spread l serverTaskData)"

definition merged_task :: "string \<Rightarrow> string \<Rightarrow> task option \<Rightarrow> task \<Rightarrow> task" where
  "merged_task now originalLocalId taskThatWasSynced serverTaskData =
     (let m = (overlay taskThatWasSynced serverTaskData)\<lparr>
            local_id := Some originalLocalId,
            sync_status := Some Synced,
            updated_at := (if truthy (updated_at serverTaskData)
                           then updated_at serverTaskData else Some now)\<rparr>
      in if \<not> truthy (created_at m)
         then (case taskThatWasSynced of
                 None \<Rightarrow> m\<lparr>created_at := updated_at m\<rparr>
               | Some l \<Rightarrow> if truthy (created_at l) then m\<lparr>created_at := created_at l\<rparr>
                           else m\<lparr>created_at := updated_at m\<rparr>)
         else m)"

text \<open>The \<^verbatim>\<open>local_id\<close> of the record that already holds the server's \<^verbatim>\<open>id\<close>, if another.\<close>

definition conflict_local_id :: "string \<Rightarrow> task \<Rightarrow> store \<Rightarrow> string option" where
  "conflict_local_id originalLocalId serverTaskData s =
     (case task_id serverTaskData of
        None \<Rightarrow> None
      | Some i \<Rightarrow>
          if i = [] then None
          else (case index_get i s of
                  None \<Rightarrow> None
                | Some conflict \<Rightarrow>
                    if truthy (local_id conflict) \<and> local_id conflict \<noteq> Some originalLocalId
                    then local_id conflict else None))"

definition updateTaskAfterSync :: "string \<Rightarrow> string \<Rightarrow> task \<Rightarrow> store \<Rightarrow> db_error + store" where
  "updateTaskAfterSync now originalLocalId serverTaskData s =
     (let m = merged_task now originalLocalId (store_get originalLocalId s) serverTaskData
      in case conflict_local_id originalLocalId serverTaskData s of
           None \<Rightarrow> store_put m s
         | Some finalLocalIdToUse \<Rightarrow>
             (case store_put (m\<lparr>local_id := Some finalLocalIdToUse\<rparr>) s of
                Inl e \<Rightarrow> Inl e
              | Inr s' \<Rightarrow>
                  if originalLocalId \<noteq> [] \<and> originalLocalId \<noteq> finalLocalIdToUse
                  then Inr (store_delete originalLocalId s') else Inr s'))"

text \<open>
  updateLocalTaskStatus; the optional \<^verbatim>\<open>serverData\<close> is given by its two optional
  properties.
\<close>

definition updateLocalTaskStatus ::
  "string \<Rightarrow> string \<Rightarrow> sync_status \<Rightarrow> string option \<Rightarrow> string option \<Rightarrow> store \<Rightarrow> db_error + store"
where
  "updateLocalTaskStatus now local_id_param st server_id server_updated_at s =
     (case store_get local_id_param s of
        None \<Rightarrow> Inr s
      | Some t \<Rightarrow>
          (let t1 = t\<lparr>local_id := Some local_id_param,
                      sync_status := Some st,
                      updated_at := (if truthy server_updated_at then server_updated_at
                                     else Some now)\<rparr>;
               t2 = (if truthy server_id then t1\<lparr>task_id := server_id\<rparr> else t1)
           in store_put t2 s))"

section \<open>The remote gateway (lib/supabase/actions.ts, app/actions/syncActions.ts)\<close>

text \<open>
  Everything outside the client is an oracle over a state \<open>'w\<close> of its own: the
  answers of the Supabase queries that \<^verbatim>\<open>onlineDB\<close> sends (an error message or the
  selected rows; the server's clock that stamps an update is part of \<open>'w\<close>), whether
  \<^verbatim>\<open>getDB()\<close> resolves, and the clock and random readings of the next store call.
  Server actions are called as functions. Console output is not modelled.
\<close>

record create_payload =
  p_title :: string
  p_description :: "string nullable"
  p_assigned_to :: "string nullable"
  p_status :: task_status

record update_payload = create_payload +
  p_is_deleted :: "bool option"

record 'w world =
  insert_row :: "create_payload \<Rightarrow> 'w \<Rightarrow> (string + task) \<times> 'w"
  update_row :: "string \<Rightarrow> update_payload \<Rightarrow> 'w \<Rightarrow> (string + task) \<times> 'w"
  flag_deleted :: "string \<Rightarrow> 'w \<Rightarrow> (string + task) \<times> 'w"
  select_since :: "string option \<Rightarrow> 'w \<Rightarrow> (string + task list) \<times> 'w"
  open_db :: "'w \<Rightarrow> bool \<times> 'w"
  clock :: "'w \<Rightarrow> readings \<times> 'w"

text \<open>\<^verbatim>\<open>onlineDB\<close>: a query error is thrown (\<open>Inl\<close>), a row is tagged \<^verbatim>\<open>synced\<close>.\<close>

definition tag_synced :: "task \<Rightarrow> task" where
  "tag_synced row = row\<lparr>sync_status := Some Synced\<rparr>"

definition tagged :: "(string + task) \<times> 'w \<Rightarrow> (string + task) \<times> 'w" where
  "tagged answer =
     (case answer of
        (Inl e, w') \<Rightarrow> (Inl e, w')
      | (Inr row, w') \<Rightarrow> (Inr (tag_synced row), w'))"

definition createTask :: "'w world \<Rightarrow> create_payload \<Rightarrow> 'w \<Rightarrow> (string + task) \<times> 'w" where
  "createTask W taskData w = tagged (insert_row W taskData w)"

definition updateTask ::
  "'w world \<Rightarrow> string \<Rightarrow> update_payload \<Rightarrow> 'w \<Rightarrow> (string + task) \<times> 'w" where
  "updateTask W i updates w = tagged (update_row W i updates w)"

definition softDeleteTask :: "'w world \<Rightarrow> string \<Rightarrow> 'w \<Rightarrow> (string + task) \<times> 'w" where
  "softDeleteTask W i w = tagged (flag_deleted W i w)"

definition getTasksModifiedSince ::
  "'w world \<Rightarrow> string option \<Rightarrow> 'w \<Rightarrow> (string + task list) \<times> 'w" where
  "getTasksModifiedSince W timestamp w =
     (case select_since W (if truthy timestamp then timestamp else None) w of
        (Inl e, w') \<Rightarrow> (Inl e, w')
      | (Inr rows, w') \<Rightarrow> (Inr (map tag_synced rows), w'))"

text \<open>
  syncPendingTaskWithServer: the call it makes to \<^verbatim>\<open>onlineDB\<close>, if any, and its
  result: \<open>Inr syncedTask\<close> is \<^verbatim>\<open>{ success: true, syncedTask }\<close>, \<open>Inl error\<close> is
  \<^verbatim>\<open>{ success: false, error }\<close>.
\<close>

datatype gateway_call =
    CreateTask create_payload
  | UpdateTask string update_payload
  | SoftDeleteTask string

definition or_null :: "'a nullable \<Rightarrow> 'a nullable" where
  "or_null v = (case v of Undefined \<Rightarrow> Null | _ \<Rightarrow> v)"

definition payloadForCreate :: "task \<Rightarrow> create_payload" where
  "payloadForCreate t =
     \<lparr> p_title = title t, p_description = or_null (description t),
       p_assigned_to = or_null (assigned_to t), p_status = status t \<rparr>"

definition payloadForUpdate :: "task \<Rightarrow> update_payload" where
  "payloadForUpdate t =
     \<lparr> p_title = title t, p_description = or_null (description t),
       p_assigned_to = or_null (assigned_to t), p_status = status t,
       p_is_deleted = is_deleted t \<rparr>"

definition dispatch :: "task \<Rightarrow> gateway_call option" where
  "dispatch t =
     (if sync_status t = Some Pending_create \<and> \<not> truthy (task_id t)
      then Some (CreateTask (payloadForCreate t))
      else case task_id t of
             None \<Rightarrow> None
           | Some i \<Rightarrow>
               if sync_status t = Some Pending_update \<and> i \<noteq> []
               then Some (UpdateTask i (payloadForUpdate t))
               else if sync_status t = Some Pending_delete \<and> i \<noteq> []
               then Some (SoftDeleteTask i)
               else None)"

definition perform :: "'w world \<Rightarrow> gateway_call \<Rightarrow> 'w \<Rightarrow> (string + task) \<times> 'w" where
  "perform W call w =
     (case call of
        CreateTask p \<Rightarrow> createTask W p w
      | UpdateTask i p \<Rightarrow> updateTask W i p w
      | SoftDeleteTask i \<Rightarrow> softDeleteTask W i w)"

definition task_label :: "task \<Rightarrow> string" where
  "task_label t =
     (if truthy (local_id t) then (case local_id t of Some l \<Rightarrow> l | None \<Rightarrow> [])
      else case task_id t of Some i \<Rightarrow> i | None \<Rightarrow> ''undefined'')"

definition syncPendingTaskWithServer :: "'w world \<Rightarrow> task \<Rightarrow> 'w \<Rightarrow> (string + task) \<times> 'w" where
  "syncPendingTaskWithServer W t w =
     (case dispatch t of
        None \<Rightarrow> (Inl (''Invalid sync_status or missing ID for task '' @ task_label t), w)
      | Some call \<Rightarrow> perform W call w)"

definition fetchServerUpdates ::
  "'w world \<Rightarrow> string option \<Rightarrow> 'w \<Rightarrow> (string + task list) \<times> 'w" where
  "fetchServerUpdates W lastSyncTimestamp w = getTasksModifiedSince W lastSyncTimestamp w"

section \<open>The sync engine (lib/syncManager.ts)\<close>

record browser =
  navigator_onLine :: "bool option"
  has_window :: bool

record 'w engine =
  isSyncing :: bool
  db :: store
  lastSyncItem :: "string option"
  world :: 'w

datatype sync_error = Offline | Sync_in_progress | Thrown db_error

record sync_result =
  success :: bool
  updatedTasks :: "task list option"
  error :: "sync_error option"

text \<open>
  The store calls as the engine makes them: each opens the database first, which may
  fail, and takes its readings from the clock. \<open>Some e\<close> in the first component is
  the rejection of the call; the store then is as before the call.
\<close>

definition engine_getPendingChanges ::
  "'w world \<Rightarrow> 'w engine \<Rightarrow> (db_error + task list) \<times> 'w engine" where
  "engine_getPendingChanges W e =
     (case open_db W (world e) of
        (False, w1) \<Rightarrow> (Inl StorageFailure, e\<lparr>world := w1\<rparr>)
      | (True, w1) \<Rightarrow> (Inr (getPendingChanges (db e)), e\<lparr>world := w1\<rparr>))"

definition engine_updateTaskAfterSync ::
  "'w world \<Rightarrow> string \<Rightarrow> task \<Rightarrow> 'w engine \<Rightarrow> db_error option \<times> 'w engine" where
  "engine_updateTaskAfterSync W k serverTask e =
     (case open_db W (world e) of
        (False, w1) \<Rightarrow> (Some StorageFailure, e\<lparr>world := w1\<rparr>)
      | (True, w1) \<Rightarrow>
          (case clock W w1 of
             (c, w2) \<Rightarrow>
               (case updateTaskAfterSync (iso1 c) k serverTask (db e) of
                  Inl err \<Rightarrow> (Some err, e\<lparr>world := w2\<rparr>)
                | Inr s' \<Rightarrow> (None, e\<lparr>db := s', world := w2\<rparr>))))"

fun draw :: "'w world \<Rightarrow> task list \<Rightarrow> 'w \<Rightarrow> (readings \<times> task) list \<times> 'w" where
  "draw W [] w = ([], w)"
| "draw W (t # ts) w =
     (case clock W w of
        (c, w1) \<Rightarrow> (case draw W ts w1 of (rest, w2) \<Rightarrow> ((c, t) # rest, w2)))"

definition engine_bulkSaveTasks ::
  "'w world \<Rightarrow> task list \<Rightarrow> 'w engine \<Rightarrow> db_error option \<times> 'w engine" where
  "engine_bulkSaveTasks W tasks e =
     (case open_db W (world e) of
        (False, w1) \<Rightarrow> (Some StorageFailure, e\<lparr>world := w1\<rparr>)
      | (True, w1) \<Rightarrow>
          (case draw W tasks w1 of
             (batch, w2) \<Rightarrow>
               (case bulkSaveTasks batch (db e) of
                  Inl err \<Rightarrow> (Some err, e\<lparr>world := w2\<rparr>)
                | Inr s' \<Rightarrow> (None, e\<lparr>db := s', world := w2\<rparr>))))"

definition getLastSyncTimestamp :: "browser \<Rightarrow> 'w engine \<Rightarrow> string option" where
  "getLastSyncTimestamp b e = (if has_window b then lastSyncItem e else None)"

definition setLastSyncTimestamp :: "browser \<Rightarrow> string \<Rightarrow> 'w engine \<Rightarrow> 'w engine" where
  "setLastSyncTimestamp b timestamp e =
     (if has_window b then e\<lparr>lastSyncItem := Some timestamp\<rparr> else e)"

text \<open>
  The push of one pending task, with its own \<^verbatim>\<open>try\<close>/\<^verbatim>\<open>catch\<close>: a failure result of
  the server action and a rejection of updateTaskAfterSync are logged and dropped.
\<close>

definition push_one :: "'w world \<Rightarrow> task \<Rightarrow> 'w engine \<Rightarrow> 'w engine" where
  "push_one W t e =
     (case syncPendingTaskWithServer W t (world e) of
        (Inl err, w1) \<Rightarrow> e\<lparr>world := w1\<rparr>
      | (Inr syncedTask, w1) \<Rightarrow>
          (case local_id t of
             None \<Rightarrow> e\<lparr>world := w1\<rparr>
           | Some k \<Rightarrow>
               if k = [] then e\<lparr>world := w1\<rparr>
               else snd (engine_updateTaskAfterSync W k syncedTask (e\<lparr>world := w1\<rparr>))))"

fun push_loop :: "'w world \<Rightarrow> task list \<Rightarrow> 'w engine \<Rightarrow> 'w engine" where
  "push_loop W [] e = e"
| "push_loop W (t # pendingTasks) e = push_loop W pendingTasks (push_one W t e)"

text \<open>The pull phase and the end of the \<^verbatim>\<open>try\<close> block; \<open>Inl\<close> is a thrown error.\<close>

definition pull_phase ::
  "'w world \<Rightarrow> browser \<Rightarrow> bool \<Rightarrow> 'w engine \<Rightarrow> (db_error + sync_result) \<times> 'w engine" where
  "pull_phase W b forceFullSync e =
     (let lastSync = (if forceFullSync then None else getLastSyncTimestamp b e)
      in case fetchServerUpdates W lastSync (world e) of
           (fetched, w1) \<Rightarrow>
             (let e1 = e\<lparr>world := w1\<rparr>;
                  serverUpdates = (case fetched of Inl fetchError \<Rightarrow> None | Inr ts \<Rightarrow> Some ts);
                  saved = (case serverUpdates of
                             None \<Rightarrow> (None, e1)
                           | Some ts \<Rightarrow> if ts \<noteq> [] then engine_bulkSaveTasks W ts e1
                                        else (None, e1))
              in case saved of
                   (Some err, e2) \<Rightarrow> (Inl err, e2)
                 | (None, e2) \<Rightarrow>
                     (case clock W (world e2) of
                        (c, w3) \<Rightarrow>
                          (Inr \<lparr> success = True, updatedTasks = serverUpdates, error = None \<rparr>,
                           (setLastSyncTimestamp b (iso1 c) (e2\<lparr>world := w3\<rparr>))
                             \<lparr>isSyncing := False\<rparr>))))"

definition try_block ::
  "'w world \<Rightarrow> browser \<Rightarrow> bool \<Rightarrow> 'w engine \<Rightarrow> (db_error + sync_result) \<times> 'w engine" where
  "try_block W b forceFullSync e =
     (case engine_getPendingChanges W e of
        (Inl err, e1) \<Rightarrow> (Inl err, e1)
      | (Inr pendingTasks, e1) \<Rightarrow> pull_phase W b forceFullSync (push_loop W pendingTasks e1))"

text \<open>
  The \<^verbatim>\<open>catch\<close> clause of synchronize: a thrown error resets the flag and becomes a
  failure result.
\<close>

definition catch_block :: "(db_error + sync_result) \<times> 'w engine \<Rightarrow> sync_result \<times> 'w engine" where
  "catch_block outcome =
     (case outcome of
        (Inr result, e') \<Rightarrow> (result, e')
      | (Inl err, e') \<Rightarrow>
          (\<lparr> success = False, updatedTasks = None, error = Some (Thrown err) \<rparr>,
           e'\<lparr>isSyncing := False\<rparr>))"

definition synchronize ::
  "'w world \<Rightarrow> browser \<Rightarrow> bool \<Rightarrow> 'w engine \<Rightarrow> sync_result \<times> 'w engine" where
  "synchronize W b forceFullSync e =
     (if navigator_onLine b = Some False
      then (\<lparr> success = False, updatedTasks = None, error = Some Offline \<rparr>, e)
      else if isSyncing e
      then (\<lparr> success = False, updatedTasks = None, error = Some Sync_in_progress \<rparr>, e)
      else catch_block (try_block W b forceFullSync (e\<lparr>isSyncing := True\<rparr>)))"

section \<open>Sequences of store calls, failed pushes and empty fetches\<close>





text \<open>
  A sequence of calls of the four writing operations of the local store; a call that
  rejects leaves the store as it was.
\<close>

datatype store_op =
    Save readings task
  | BulkSave "(readings \<times> task) list"
  | Reconcile string string task
  | SetStatus string string sync_status "string option" "string option"

definition or_unchanged :: "db_error + store \<Rightarrow> store \<Rightarrow> store" where
  "or_unchanged outcome s = (case outcome of Inl e \<Rightarrow> s | Inr s' \<Rightarrow> s')"

fun apply_op :: "store_op \<Rightarrow> store \<Rightarrow> store" where
  "apply_op (Save c t) s = or_unchanged (map_sum id snd (saveTask c t s)) s"
| "apply_op (BulkSave batch) s = or_unchanged (bulkSaveTasks batch s) s"
| "apply_op (Reconcile now k serverTask) s = or_unchanged (updateTaskAfterSync now k serverTask s) s"
| "apply_op (SetStatus now k st server_id server_updated_at) s =
     or_unchanged (updateLocalTaskStatus now k st server_id server_updated_at s) s"

fun run_ops :: "store_op list \<Rightarrow> store \<Rightarrow> store" where
  "run_ops [] s = s"
| "run_ops (op # ops) s = run_ops ops (apply_op op s)"

text \<open>The invariant of the data model: a \<^verbatim>\<open>synced\<close> record has a server \<^verbatim>\<open>id\<close>.\<close>

definition synced_has_id :: "store \<Rightarrow> bool" where
  "synced_has_id s = (\<forall>r \<in> set s. sync_status r = Some Synced \<longrightarrow> truthy (task_id r))"

text \<open>
  The call is given a server \<^verbatim>\<open>id\<close> for what it writes as \<^verbatim>\<open>synced\<close>: every task of a
  batch has one, the server's task has one, and a status set to \<^verbatim>\<open>synced\<close> comes with an
  \<^verbatim>\<open>id\<close> or meets a record that has one.
\<close>

fun carries_id :: "store_op \<Rightarrow> store \<Rightarrow> bool" where
  "carries_id (Save c t) s = True"
| "carries_id (BulkSave batch) s = (\<forall>(c, t) \<in> set batch. truthy (task_id t))"
| "carries_id (Reconcile now k serverTask) s = truthy (task_id serverTask)"
| "carries_id (SetStatus now k st server_id server_updated_at) s =
     (st = Synced \<longrightarrow>
        truthy server_id \<or> (case store_get k s of None \<Rightarrow> False | Some t \<Rightarrow> truthy (task_id t)))"

fun all_carry_id :: "store_op list \<Rightarrow> store \<Rightarrow> bool" where
  "all_carry_id [] s = True"
| "all_carry_id (op # ops) s = (carries_id op s \<and> all_carry_id ops (apply_op op s))"

text \<open>
  A pending task whose push fails: the server action returns a failure result, or the
  task has no \<^verbatim>\<open>local_id\<close>, or updateTaskAfterSync rejects.
\<close>

definition push_failed :: "'w world \<Rightarrow> task \<Rightarrow> 'w engine \<Rightarrow> bool" where
  "push_failed W t e =
     (case syncPendingTaskWithServer W t (world e) of
        (Inl err, w1) \<Rightarrow> True
      | (Inr syncedTask, w1) \<Rightarrow>
          (case local_id t of
             None \<Rightarrow> True
           | Some k \<Rightarrow>
               k = [] \<or> fst (engine_updateTaskAfterSync W k syncedTask (e\<lparr>world := w1\<rparr>)) \<noteq> None))"

text \<open>
  A row of a batch addresses a stored record when bulkSaveTasks may write it over the
  record: it has the record's server \<^verbatim>\<open>id\<close>, or it would be stored under the record's
  \<^verbatim>\<open>local_id\<close> (its own \<^verbatim>\<open>local_id\<close>, else its \<^verbatim>\<open>id\<close>, else a generated one).
\<close>

definition addresses :: "task \<Rightarrow> task \<Rightarrow> bool" where
  "addresses row r =
     (\<not> truthy (task_id row) \<or> task_id row = task_id r \<or>
      (if truthy (local_id row) then local_id row = local_id r
       else task_id row = local_id r))"

text \<open>
  The pushes of the tasks that follow do not touch a record: they are not for its
  \<^verbatim>\<open>local_id\<close>, and the server's answers do not carry its \<^verbatim>\<open>id\<close>.
\<close>

fun later_pushes_spare :: "'w world \<Rightarrow> task list \<Rightarrow> 'w engine \<Rightarrow> task \<Rightarrow> bool" where
  "later_pushes_spare W [] e r = True"
| "later_pushes_spare W (t # ts) e r =
     (local_id t \<noteq> local_id r \<and>
      (case fst (syncPendingTaskWithServer W t (world e)) of
         Inl err \<Rightarrow> True
       | Inr syncedTask \<Rightarrow> \<not> (truthy (task_id syncedTask) \<and> task_id syncedTask = task_id r)) \<and>
      later_pushes_spare W ts (push_one W t e) r)"

text \<open>The fetch of the pull phase, made in this state, brings no row that addresses it.\<close>

definition pull_spares :: "'w world \<Rightarrow> browser \<Rightarrow> bool \<Rightarrow> 'w engine \<Rightarrow> task \<Rightarrow> bool" where
  "pull_spares W b forceFullSync e r =
     (case fst (fetchServerUpdates W
                  (if forceFullSync then None else getLastSyncTimestamp b e) (world e)) of
        Inl fetchError \<Rightarrow> True
      | Inr ts \<Rightarrow> \<forall>row \<in> set ts. \<not> addresses row r)"

section \<open>Example data\<close>

definition sample_readings :: readings where
  "sample_readings =
     \<lparr> date_now = ''1700000000000'', random36 = ''k3x9q2a'',
       iso1 = ''2024-01-01T00:00:00.000Z'', iso2 = ''2024-01-01T00:00:00.001Z'' \<rparr>"

definition buy_milk :: task where
  "buy_milk =
     \<lparr> task_id = None, local_id = Some ''local_1'', title = ''Buy milk'',
       description = Undefined, assigned_to = Undefined, status = Pending,
       is_deleted = None, created_at = None, updated_at = None,
       sync_status = Some Pending_create, undefined_props = {} \<rparr>"


definition rec_A :: task where
  "rec_A =
     \<lparr> task_id = None, local_id = Some ''local_A'', title = ''Buy milk'',
       description = Defined ''two litres'', assigned_to = Defined ''Anthony'',
       status = Pending,
       is_deleted = Some False, created_at = Some ''2023-12-31T10:00:00.000Z'',
       updated_at = Some ''2023-12-31T10:00:00.000Z'',
       sync_status = Some Pending_create, undefined_props = {} \<rparr>"

definition rec_B :: task where
  "rec_B =
     \<lparr> task_id = Some ''srv-1'', local_id = Some ''local_B'', title = ''Buy milk'',
       description = Null, assigned_to = Null, status = Pending,
       is_deleted = Some False, created_at = Some ''2023-12-31T10:00:02.000Z'',
       updated_at = Some ''2023-12-31T10:00:02.000Z'',
       sync_status = Some Synced, undefined_props = {} \<rparr>"

definition server_row :: task where
  "server_row =
     \<lparr> task_id = Some ''srv-1'', local_id = None, title = ''Buy milk'',
       description = Null, assigned_to = Null, status = In_progress,
       is_deleted = Some False, created_at = Some ''2023-12-31T10:00:02.000Z'',
       updated_at = Some ''2023-12-31T12:00:00.000Z'',
       sync_status = Some Synced, undefined_props = {} \<rparr>"

text \<open>
  A world in which every write to the server fails and a full fetch returns one row;
  its state counts the queries sent to the server.
\<close>

definition refusing_world :: "nat world" where
  "refusing_world =
     \<lparr> insert_row = (\<lambda>p w. (Inl ''network error'', Suc w)),
       update_row = (\<lambda>i p w. (Inl ''network error'', Suc w)),
       flag_deleted = (\<lambda>i w. (Inl ''network error'', Suc w)),
       select_since = (\<lambda>ts w. (Inr [server_row], Suc w)),
       open_db = (\<lambda>w. (True, w)),
       clock = (\<lambda>w. (sample_readings, w)) \<rparr>"

text \<open>A world in which every query to the server fails.\<close>

definition unreachable_world :: "nat world" where
  "unreachable_world =
     \<lparr> insert_row = (\<lambda>p w. (Inl ''network error'', Suc w)),
       update_row = (\<lambda>i p w. (Inl ''network error'', Suc w)),
       flag_deleted = (\<lambda>i w. (Inl ''network error'', Suc w)),
       select_since = (\<lambda>ts w. (Inl ''network error'', Suc w)),
       open_db = (\<lambda>w. (True, w)),
       clock = (\<lambda>w. (sample_readings, w)) \<rparr>"

text \<open>A world in which the database cannot be opened.\<close>

definition locked_world :: "nat world" where
  "locked_world = refusing_world\<lparr>open_db := (\<lambda>w. (False, w))\<rparr>"

definition online :: browser where
  "online = \<lparr> navigator_onLine = Some True, has_window = True \<rparr>"

definition offline :: browser where
  "offline = \<lparr> navigator_onLine = Some False, has_window = True \<rparr>"

text \<open>
  The record of the server's row, edited locally after the server's row was last
  changed, and waiting for its push.
\<close>

definition edited :: task where
  "edited =
     rec_B\<lparr>title := ''Buy oat milk'', updated_at := Some ''2023-12-31T18:00:00.000Z'',
           sync_status := Some Pending_update\<rparr>"

definition idle_engine :: "nat engine" where
  "idle_engine = \<lparr> isSyncing = False, db = [edited], lastSyncItem = None, world = 0 \<rparr>"

definition busy_engine :: "nat engine" where
  "busy_engine = \<lparr> isSyncing = True, db = [edited], lastSyncItem = None, world = 0 \<rparr>"

text \<open>A record that has a server \<^verbatim>\<open>id\<close> and is marked \<^verbatim>\<open>pending_create\<close>.\<close>

definition stale_create :: task where
  "stale_create = rec_B\<lparr>sync_status := Some Pending_create\<rparr>"

definition removed :: task where
  "removed = rec_B\<lparr>is_deleted := Some True, sync_status := Some Pending_delete\<rparr>"

text \<open>A second locally edited record, of another server row.\<close>

definition other_edit :: task where
  "other_edit =
     \<lparr> task_id = Some ''srv-2'', local_id = Some ''local_C'', title = ''Call the plumber'',
       description = Null, assigned_to = Defined ''Stiff'', status = In_progress,
       is_deleted = Some False, created_at = Some ''2023-12-30T09:00:00.000Z'',
       updated_at = Some ''2023-12-31T18:30:00.000Z'',
       sync_status = Some Pending_update, undefined_props = {} \<rparr>"

definition second_engine :: "nat engine" where
  "second_engine = \<lparr> isSyncing = False, db = [other_edit], lastSyncItem = None, world = 0 \<rparr>"

text \<open>
  A server task without \<^verbatim>\<open>description\<close> and \<^verbatim>\<open>created_at\<close>, with \<^verbatim>\<open>assigned_to\<close> null
  and with \<^verbatim>\<open>is_deleted\<close> present as \<^verbatim>\<open>undefined\<close>.
\<close>

definition partial_row :: task where
  "partial_row =
     \<lparr> task_id = Some ''srv-1'', local_id = None, title = ''Buy milk today'',
       description = Undefined, assigned_to = Null, status = In_progress,
       is_deleted = None, created_at = None,
       updated_at = Some ''2023-12-31T12:00:00.000Z'',
       sync_status = Some Synced, undefined_props = {P_is_deleted} \<rparr>"


section \<open>Properties\<close>

lemma truthy_Some [simp]: "truthy (Some x) = (x \<noteq> [])"
  by (simp add: truthy_def)

lemma truthy_None [simp]: "\<not> truthy None"
  by (simp add: truthy_def)

lemma truthyE: "truthy v \<Longrightarrow> \<exists>x. v = Some x \<and> x \<noteq> []"
  by (cases v) auto

subsection \<open>The object store\<close>

lemma store_get_put_rec_same:
  "local_id t = Some k \<Longrightarrow> store_get k (put_rec t s) = Some t"
  by (induction s) (auto simp: store_get_def)

lemma store_get_put_rec_other:
  "local_id t \<noteq> Some k \<Longrightarrow> store_get k (put_rec t s) = store_get k s"
  by (induction s) (auto simp: store_get_def)

lemma set_put_rec_subset: "set (put_rec t s) \<subseteq> insert t (set s)"
  by (induction s) auto

lemma set_put_rec_distinct:
  "distinct (map local_id s) \<Longrightarrow>
   set (put_rec t s) = insert t {r \<in> set s. local_id r \<noteq> local_id t}"
  by (induction s) (auto simp: image_iff)

lemma map_local_id_put_rec:
  "map local_id (put_rec t s) =
     (if local_id t \<in> set (map local_id s) then map local_id s else map local_id s @ [local_id t])"
  by (induction s) auto

lemma distinct_put_rec:
  "distinct (map local_id s) \<Longrightarrow> distinct (map local_id (put_rec t s))"
  by (simp add: map_local_id_put_rec)

lemma store_get_delete_same: "store_get k (store_delete k s) = None"
  by (induction s) (auto simp: store_get_def store_delete_def)

lemma store_get_delete_other:
  "k' \<noteq> k \<Longrightarrow> store_get k' (store_delete k s) = store_get k' s"
  by (induction s) (auto simp: store_get_def store_delete_def)

lemma index_get_SomeD:
  "index_get i s = Some e \<Longrightarrow> e \<in> set s \<and> task_id e = Some i"
  unfolding index_get_def by (induction s) (auto split: if_splits)

lemma index_get_NoneD:
  "index_get i s = None \<Longrightarrow> r \<in> set s \<Longrightarrow> task_id r \<noteq> Some i"
  unfolding index_get_def by (induction s) (auto split: if_splits)

lemma not_violatesD:
  "\<not> violates_index t s \<Longrightarrow> r \<in> set s \<Longrightarrow> task_id t \<noteq> None \<Longrightarrow>
   task_id r = task_id t \<Longrightarrow> local_id r = local_id t"
  unfolding violates_index_def by blast

lemma wf_store_keyD: "wf_store s \<Longrightarrow> r \<in> set s \<Longrightarrow> truthy (local_id r)"
  unfolding wf_store_def by blast

lemma wf_store_distinctD: "wf_store s \<Longrightarrow> distinct (map local_id s)"
  unfolding wf_store_def by blast

lemma wf_store_uniqueD:
  "wf_store s \<Longrightarrow> r \<in> set s \<Longrightarrow> r' \<in> set s \<Longrightarrow> task_id r \<noteq> None \<Longrightarrow>
   task_id r = task_id r' \<Longrightarrow> local_id r = local_id r'"
  unfolding wf_store_def by blast

lemma wf_store_put_rec:
  assumes wf: "wf_store s" and k: "truthy (local_id t)" and nv: "\<not> violates_index t s"
  shows "wf_store (put_rec t s)"
proof -
  from wf have d: "distinct (map local_id s)" by (simp add: wf_store_def)
  have st: "set (put_rec t s) = insert t {r \<in> set s. local_id r \<noteq> local_id t}"
    using d by (rule set_put_rec_distinct)
  have keys: "\<forall>r\<in>set (put_rec t s). truthy (local_id r)"
    using wf k st by (auto simp: wf_store_def)
  have uniq: "local_id r = local_id r'"
    if "r \<in> set (put_rec t s)" "r' \<in> set (put_rec t s)"
       "task_id r \<noteq> None" "task_id r = task_id r'" for r r'
  proof (cases "r = t")
    case True
    show ?thesis
    proof (cases "r' = t")
      case True with \<open>r = t\<close> show ?thesis by simp
    next
      case False
      with that(2) st have "r' \<in> set s" by auto
      with nv that(3,4) True show ?thesis by (metis not_violatesD)
    qed
  next
    case False
    with that(1) st have rs: "r \<in> set s" by auto
    show ?thesis
    proof (cases "r' = t")
      case True
      with nv rs that(3,4) show ?thesis by (metis not_violatesD)
    next
      case False
      with that(2) st have "r' \<in> set s" by auto
      with wf rs that(3,4) show ?thesis by (metis wf_store_uniqueD)
    qed
  qed
  show ?thesis
    unfolding wf_store_def using keys distinct_put_rec[OF d] uniq by blast
qed

lemma wf_store_delete: "wf_store s \<Longrightarrow> wf_store (store_delete k s)"
  by (auto simp: wf_store_def store_delete_def distinct_map_filter)


subsection \<open>saveTask\<close>

lemma ensure_local_id_truthy: "truthy (local_id (ensure_local_id c t))"
  by (auto simp: ensure_local_id_def lacks_local_id_def split: option.splits)

lemma ensure_local_id_fields:
  "task_id (ensure_local_id c t) = task_id t"
  "title (ensure_local_id c t) = title t" "description (ensure_local_id c t) = description t"
  "assigned_to (ensure_local_id c t) = assigned_to t" "status (ensure_local_id c t) = status t"
  "is_deleted (ensure_local_id c t) = is_deleted t"
  "created_at (ensure_local_id c t) = created_at t"
  "updated_at (ensure_local_id c t) = updated_at t"
  "sync_status (ensure_local_id c t) = sync_status t"
  by (simp_all add: ensure_local_id_def)

lemma consolidate_fields:
  "task_id (consolidate s t) = task_id t"
  "title (consolidate s t) = title t" "description (consolidate s t) = description t"
  "assigned_to (consolidate s t) = assigned_to t" "status (consolidate s t) = status t"
  "is_deleted (consolidate s t) = is_deleted t"
  "created_at (consolidate s t) = created_at t"
  "updated_at (consolidate s t) = updated_at t"
  "sync_status (consolidate s t) = sync_status t"
  by (simp_all add: consolidate_def split: option.splits)

lemma consolidate_truthy: "truthy (local_id t) \<Longrightarrow> truthy (local_id (consolidate s t))"
  by (simp add: consolidate_def split: option.splits)

lemma mark_new_fields:
  "local_id (mark_new c t) = local_id t" "task_id (mark_new c t) = task_id t"
  "title (mark_new c t) = title t" "description (mark_new c t) = description t"
  "assigned_to (mark_new c t) = assigned_to t" "status (mark_new c t) = status t"
  "is_deleted (mark_new c t) = is_deleted t"
  by (simp_all add: mark_new_def Let_def)

lemma stamp_fields:
  "local_id (stamp c t) = local_id t" "task_id (stamp c t) = task_id t"
  "title (stamp c t) = title t" "description (stamp c t) = description t"
  "assigned_to (stamp c t) = assigned_to t" "status (stamp c t) = status t"
  "is_deleted (stamp c t) = is_deleted t"
  by (simp_all add: stamp_def Let_def)

lemma taskToSave_local_id:
  "local_id (taskToSave c t s) = local_id (consolidate s (ensure_local_id c t))"
  by (simp add: taskToSave_def stamp_fields mark_new_fields)

lemma taskToSave_truthy: "truthy (local_id (taskToSave c t s))"
  by (simp add: taskToSave_local_id consolidate_truthy ensure_local_id_truthy)

lemma taskToSave_domain:
  "task_id (taskToSave c t s) = task_id t" "title (taskToSave c t s) = title t"
  "description (taskToSave c t s) = description t"
  "assigned_to (taskToSave c t s) = assigned_to t" "status (taskToSave c t s) = status t"
  "is_deleted (taskToSave c t s) = is_deleted t"
  by (simp_all add: taskToSave_def stamp_fields mark_new_fields consolidate_fields
        ensure_local_id_fields)

lemma consolidate_no_violation:
  assumes wf: "wf_store s" and i: "task_id t \<noteq> Some []"
  shows "\<not> violates_index (consolidate s t) s"
proof (cases "task_id t")
  case None
  then show ?thesis by (simp add: consolidate_def violates_index_def)
next
  case (Some i)
  with i have ne: "i \<noteq> []" by simp
  show ?thesis
  proof (cases "index_get i s")
    case None
    then have "\<forall>r\<in>set s. task_id r \<noteq> Some i" by (blast dest: index_get_NoneD)
    with Some ne None show ?thesis by (simp add: consolidate_def violates_index_def)
  next
    case (Some e)
    then have e: "e \<in> set s" "task_id e = Some i" by (auto dest: index_get_SomeD)
    with wf have te: "truthy (local_id e)" by (blast dest: wf_store_keyD)
    have l: "local_id (consolidate s t) = local_id e"
      using \<open>task_id t = Some i\<close> ne Some te by (simp add: consolidate_def)
    have u: "local_id r = local_id e" if "r \<in> set s" "task_id r = Some i" for r
      using wf_store_uniqueD[OF wf that(1) e(1)] that(2) e(2) by simp
    show ?thesis
    proof
      assume "violates_index (consolidate s t) s"
      then obtain r where r: "r \<in> set s" "task_id r = Some i"
          "local_id r \<noteq> local_id (consolidate s t)"
        unfolding violates_index_def consolidate_fields \<open>task_id t = Some i\<close> by blast
      from u[OF r(1,2)] r(3) l show False by simp
    qed
  qed
qed

lemma violates_index_cong:
  "task_id t = task_id t' \<Longrightarrow> local_id t = local_id t' \<Longrightarrow>
   violates_index t s = violates_index t' s"
  by (simp add: violates_index_def)

lemma taskToSave_no_violation:
  assumes "wf_store s" "task_id t \<noteq> Some []"
  shows "\<not> violates_index (taskToSave c t s) s"
proof -
  from assms have "\<not> violates_index (consolidate s (ensure_local_id c t)) s"
    by (simp add: consolidate_no_violation ensure_local_id_fields)
  moreover have "violates_index (taskToSave c t s) s =
      violates_index (consolidate s (ensure_local_id c t)) s"
    by (rule violates_index_cong)
       (simp_all add: taskToSave_def stamp_fields mark_new_fields consolidate_fields)
  ultimately show ?thesis by simp
qed

lemma saveTask_eq:
  "saveTask c T s =
     (case local_id (taskToSave c T s) of
        None \<Rightarrow> Inl DataError
      | Some k \<Rightarrow> if violates_index (taskToSave c T s) s then Inl ConstraintError
                  else Inr (k, put_rec (taskToSave c T s) s))"
  by (simp add: saveTask_def store_put_def Let_def split: option.splits)

text \<open>
  C9. Whenever saveTask returns a \<^verbatim>\<open>local_id\<close>, getTaskByLocalId on it finds a record
  whose domain fields (title, description, assigned_to, status, is_deleted) are those
  of the input. saveTask does return on every store that satisfies the constraints of
  the database, for every input without an \<^verbatim>\<open>id\<close> or with a non-empty one.
\<close>

theorem saveTask_roundtrip:
  "(\<forall>k s'. saveTask c T s = Inr (k, s') \<longrightarrow>
      (\<exists>r. getTaskByLocalId k s' = Some r \<and> title r = title T \<and>
           description r = description T \<and> assigned_to r = assigned_to T \<and>
           status r = status T \<and> is_deleted r = is_deleted T)) \<and>
   (wf_store s \<and> task_id T \<noteq> Some [] \<longrightarrow> (\<exists>k s'. saveTask c T s = Inr (k, s')))"
proof (intro conjI allI impI)
  fix k s' assume ok: "saveTask c T s = Inr (k, s')"
  let ?t = "taskToSave c T s"
  from ok have k: "local_id ?t = Some k" and s': "s' = put_rec ?t s"
    by (auto simp: saveTask_def Let_def store_put_def split: option.splits if_splits sum.splits)
  from taskToSave_truthy[of c T s] k have "k \<noteq> []" by simp
  then have "getTaskByLocalId k s' = Some ?t"
    using k s' by (simp add: getTaskByLocalId_def store_get_put_rec_same)
  then show "\<exists>r. getTaskByLocalId k s' = Some r \<and> title r = title T \<and>
           description r = description T \<and> assigned_to r = assigned_to T \<and>
           status r = status T \<and> is_deleted r = is_deleted T"
    by (simp add: taskToSave_domain)
next
  assume "wf_store s \<and> task_id T \<noteq> Some []"
  then have nv: "\<not> violates_index (taskToSave c T s) s"
    by (simp add: taskToSave_no_violation)
  obtain k where "local_id (taskToSave c T s) = Some k"
    using truthyE[OF taskToSave_truthy[of c T s]] by blast
  with nv show "\<exists>k s'. saveTask c T s = Inr (k, s')"
    by (simp add: saveTask_def Let_def store_put_def)
qed

theorem saveTask_roundtrip_witness:
  "wf_store [] \<and> task_id buy_milk \<noteq> Some [] \<and>
   saveTask sample_readings buy_milk [] =
     Inr (''local_1'',
          [buy_milk\<lparr>created_at := Some ''2024-01-01T00:00:00.001Z'',
                    updated_at := Some ''2024-01-01T00:00:00.001Z''\<rparr>]) \<and>
   (\<exists>r. getTaskByLocalId ''local_1''
          [buy_milk\<lparr>created_at := Some ''2024-01-01T00:00:00.001Z'',
                    updated_at := Some ''2024-01-01T00:00:00.001Z''\<rparr>] = Some r \<and>
        title r = ''Buy milk'' \<and> description r = Undefined \<and> assigned_to r = Undefined \<and>
        status r = Pending \<and> is_deleted r = None)"
proof -
  have wf: "wf_store []" by (simp add: wf_store_def)
  have i: "task_id buy_milk \<noteq> Some []" by (simp add: buy_milk_def)
  have "\<exists>k s'. saveTask sample_readings buy_milk [] = Inr (k, s')"
    using saveTask_roundtrip[of sample_readings buy_milk "[]"] wf i by blast
  moreover have t: "taskToSave sample_readings buy_milk [] =
      buy_milk\<lparr>created_at := Some ''2024-01-01T00:00:00.001Z'',
               updated_at := Some ''2024-01-01T00:00:00.001Z''\<rparr>"
    by (simp add: taskToSave_def stamp_def mark_new_def consolidate_def ensure_local_id_def
          lacks_local_id_def trim_def is_ws1_def is_ws2_def is_ws3_def buy_milk_def sample_readings_def Let_def)
  ultimately have run: "saveTask sample_readings buy_milk [] =
      Inr (''local_1'', [buy_milk\<lparr>created_at := Some ''2024-01-01T00:00:00.001Z'',
                                  updated_at := Some ''2024-01-01T00:00:00.001Z''\<rparr>])"
    by (auto simp: saveTask_def Let_def store_put_def buy_milk_def split: option.splits)
  from saveTask_roundtrip[of sample_readings buy_milk "[]"] run
  have "\<exists>r. getTaskByLocalId ''local_1''
          [buy_milk\<lparr>created_at := Some ''2024-01-01T00:00:00.001Z'',
                    updated_at := Some ''2024-01-01T00:00:00.001Z''\<rparr>] = Some r \<and>
        title r = title buy_milk \<and> description r = description buy_milk \<and>
        assigned_to r = assigned_to buy_milk \<and> status r = status buy_milk \<and>
        is_deleted r = is_deleted buy_milk"
    by blast
  then show ?thesis using wf i run by (simp add: buy_milk_def)
qed

lemma index_get_Some_ex:
  "r \<in> set s \<Longrightarrow> task_id r = Some i \<Longrightarrow> \<exists>e. index_get i s = Some e"
  unfolding index_get_def by (induction s) auto

lemma store_get_SomeD:
  "store_get k s = Some r \<Longrightarrow> r \<in> set s \<and> local_id r = Some k"
  unfolding store_get_def by (induction s) (auto split: if_splits)

lemma wf_store_get_empty: "wf_store s \<Longrightarrow> store_get [] s = None"
proof (cases "store_get [] s")
  case None then show ?thesis by simp
next
  case (Some r)
  assume wf: "wf_store s"
  from Some have "r \<in> set s" "local_id r = Some []" by (auto dest: store_get_SomeD)
  with wf_store_keyD[OF wf this(1)] show ?thesis by simp
qed

subsection \<open>updateTaskAfterSync\<close>

lemma merged_task_fields:
  "local_id (merged_task now k l srv) = Some k"
  "sync_status (merged_task now k l srv) = Some Synced"
  "updated_at (merged_task now k l srv) =
     (if truthy (updated_at srv) then updated_at srv else Some now)"
  "task_id (merged_task now k l srv) = task_id (overlay l srv)"
  "title (merged_task now k l srv) = title (overlay l srv)"
  "description (merged_task now k l srv) = description (overlay l srv)"
  "assigned_to (merged_task now k l srv) = assigned_to (overlay l srv)"
  "status (merged_task now k l srv) = status (overlay l srv)"
  "is_deleted (merged_task now k l srv) = is_deleted (overlay l srv)"
  by (simp_all add: merged_task_def overlay_def Let_def split: option.splits)

lemma overlay_task_id: "task_id srv = Some i \<Longrightarrow> task_id (overlay l srv) = Some i"
  by (simp add: overlay_def spread_def over_def split: option.splits)

lemma merged_task_explicit:
  "local_id (merged_task now k old srv) = Some k"
  "sync_status (merged_task now k old srv) = Some Synced"
  "title (merged_task now k old srv) = title srv"
  "status (merged_task now k old srv) = status srv"
  "task_id (merged_task now k old srv) =
     (if task_id srv = None \<and> P_id \<notin> undefined_props srv
      then (case old of None \<Rightarrow> None | Some l \<Rightarrow> task_id l) else task_id srv)"
  "description (merged_task now k old srv) =
     (if description srv = Undefined \<and> P_description \<notin> undefined_props srv
      then (case old of None \<Rightarrow> Undefined | Some l \<Rightarrow> description l) else description srv)"
  "assigned_to (merged_task now k old srv) =
     (if assigned_to srv = Undefined \<and> P_assigned_to \<notin> undefined_props srv
      then (case old of None \<Rightarrow> Undefined | Some l \<Rightarrow> assigned_to l) else assigned_to srv)"
  "is_deleted (merged_task now k old srv) =
     (if is_deleted srv = None \<and> P_is_deleted \<notin> undefined_props srv
      then (case old of None \<Rightarrow> None | Some l \<Rightarrow> is_deleted l) else is_deleted srv)"
  "updated_at (merged_task now k old srv) =
     (if truthy (updated_at srv) then updated_at srv else Some now)"
  "undefined_props (merged_task now k old srv) =
     (case old of None \<Rightarrow> {} | Some l \<Rightarrow> undefined_props l) \<union> undefined_props srv"
  by (simp_all add: merged_task_def overlay_def spread_def over_def over_nullable_def Let_def
        split: option.splits nullable.splits)

lemma merged_task_created_at:
  "created_at (merged_task now k old srv) =
     (if truthy (created_at srv) then created_at srv
      else case old of
             None \<Rightarrow> updated_at (merged_task now k old srv)
           | Some l \<Rightarrow> if truthy (created_at l) then created_at l
                       else updated_at (merged_task now k old srv))"
  by (cases old; cases "created_at srv")
     (auto simp: merged_task_def overlay_def spread_def over_def Let_def)

text \<open>
  C1. When the server's \<^verbatim>\<open>id\<close> is already held by a record under another
  \<^verbatim>\<open>local_id\<close> (\<open>local_B\<close>), updateTaskAfterSync for \<open>local_A\<close> succeeds, leaves no
  record under \<open>local_A\<close>, and the record under \<open>local_B\<close> is the merged one, marked
  \<^verbatim>\<open>synced\<close>: every property that the server's task has (also one it has as
  \<^verbatim>\<open>undefined\<close>) is the server's, every other one is that of the record that was under
  \<open>local_A\<close>; \<^verbatim>\<open>updated_at\<close> is the server's or else the current time, and
  \<^verbatim>\<open>created_at\<close> is the server's, else the old record's, else \<^verbatim>\<open>updated_at\<close>. The
  store satisfies the constraints of the database, and the \<^verbatim>\<open>id\<close> is a non-empty
  string.
\<close>

theorem updateTaskAfterSync_conflict:
  assumes wf: "wf_store s"
    and sid: "task_id serverTask = Some i" "i \<noteq> []"
    and rb: "rb \<in> set s" "task_id rb = Some i" "local_id rb = Some local_B"
    and ne: "local_B \<noteq> local_A"
    and old: "store_get local_A s = old"
  shows "\<exists>s' m. updateTaskAfterSync now local_A serverTask s = Inr s' \<and>
     store_get local_A s' = None \<and>
     store_get local_B s' = Some m \<and>
     local_id m = Some local_B \<and> sync_status m = Some Synced \<and>
     task_id m = Some i \<and> title m = title serverTask \<and> status m = status serverTask \<and>
     description m =
       (if description serverTask = Undefined \<and> P_description \<notin> undefined_props serverTask
        then (case old of None \<Rightarrow> Undefined | Some l \<Rightarrow> description l)
        else description serverTask) \<and>
     assigned_to m =
       (if assigned_to serverTask = Undefined \<and> P_assigned_to \<notin> undefined_props serverTask
        then (case old of None \<Rightarrow> Undefined | Some l \<Rightarrow> assigned_to l)
        else assigned_to serverTask) \<and>
     is_deleted m =
       (if is_deleted serverTask = None \<and> P_is_deleted \<notin> undefined_props serverTask
        then (case old of None \<Rightarrow> None | Some l \<Rightarrow> is_deleted l)
        else is_deleted serverTask) \<and>
     updated_at m =
       (if truthy (updated_at serverTask) then updated_at serverTask else Some now) \<and>
     created_at m =
       (if truthy (created_at serverTask) then created_at serverTask
        else case old of
               None \<Rightarrow> updated_at m
             | Some l \<Rightarrow> if truthy (created_at l) then created_at l else updated_at m) \<and>
     undefined_props m =
       (case old of None \<Rightarrow> {} | Some l \<Rightarrow> undefined_props l) \<union>
       undefined_props serverTask"
proof -
  let ?m = "merged_task now local_A (store_get local_A s) serverTask"
  let ?m' = "?m\<lparr>local_id := Some local_B\<rparr>"
  from rb obtain e where e: "index_get i s = Some e" by (blast dest: index_get_Some_ex)
  then have es: "e \<in> set s" "task_id e = Some i" by (auto dest: index_get_SomeD)
  have le: "local_id e = Some local_B"
    using wf_store_uniqueD[OF wf es(1) rb(1)] es(2) rb(2,3) by simp
  have bne: "local_B \<noteq> []" using wf_store_keyD[OF wf rb(1)] rb(3) by simp
  have c: "conflict_local_id local_A serverTask s = Some local_B"
    using sid e le bne ne by (simp add: conflict_local_id_def)
  have mid: "task_id ?m' = Some i"
    using sid(1) by (simp add: merged_task_explicit)
  have nv: "\<not> violates_index ?m' s"
  proof
    assume "violates_index ?m' s"
    then obtain r where r: "r \<in> set s" "task_id r = Some i" "local_id r \<noteq> Some local_B"
      unfolding violates_index_def mid by auto
    from wf_store_uniqueD[OF wf r(1) rb(1)] r(2,3) rb(2,3) show False by simp
  qed
  let ?s1 = "put_rec ?m' s"
  have put: "store_put ?m' s = Inr ?s1" using nv by (simp add: store_put_def)
  have wf1: "wf_store ?s1" using wf nv bne by (intro wf_store_put_rec) simp_all
  have gB: "store_get local_B ?s1 = Some ?m'" by (simp add: store_get_put_rec_same)
  have "\<exists>s'. updateTaskAfterSync now local_A serverTask s = Inr s' \<and>
           store_get local_A s' = None \<and> store_get local_B s' = Some ?m'"
  proof (cases "local_A = []")
    case True
    have "updateTaskAfterSync now local_A serverTask s = Inr ?s1"
      using c put True by (simp add: updateTaskAfterSync_def Let_def)
    moreover have "store_get local_A ?s1 = None"
      using wf_store_get_empty[OF wf1] True by simp
    ultimately show ?thesis using gB by blast
  next
    case False
    have "updateTaskAfterSync now local_A serverTask s = Inr (store_delete local_A ?s1)"
      using c put False ne by (simp add: updateTaskAfterSync_def Let_def)
    moreover have "store_get local_A (store_delete local_A ?s1) = None"
      by (rule store_get_delete_same)
    moreover have "store_get local_B (store_delete local_A ?s1) = Some ?m'"
      using gB ne by (simp add: store_get_delete_other)
    ultimately show ?thesis by blast
  qed
  then obtain s' where s': "updateTaskAfterSync now local_A serverTask s = Inr s'"
      "store_get local_A s' = None" "store_get local_B s' = Some ?m'"
    by blast
  have fields: "local_id ?m' = Some local_B" "sync_status ?m' = Some Synced"
      "task_id ?m' = Some i" "title ?m' = title serverTask" "status ?m' = status serverTask"
      "description ?m' =
         (if description serverTask = Undefined \<and> P_description \<notin> undefined_props serverTask
          then (case store_get local_A s of None \<Rightarrow> Undefined | Some l \<Rightarrow> description l)
          else description serverTask)"
      "assigned_to ?m' =
         (if assigned_to serverTask = Undefined \<and> P_assigned_to \<notin> undefined_props serverTask
          then (case store_get local_A s of None \<Rightarrow> Undefined | Some l \<Rightarrow> assigned_to l)
          else assigned_to serverTask)"
      "is_deleted ?m' =
         (if is_deleted serverTask = None \<and> P_is_deleted \<notin> undefined_props serverTask
          then (case store_get local_A s of None \<Rightarrow> None | Some l \<Rightarrow> is_deleted l)
          else is_deleted serverTask)"
      "updated_at ?m' =
         (if truthy (updated_at serverTask) then updated_at serverTask else Some now)"
      "undefined_props ?m' =
         (case store_get local_A s of None \<Rightarrow> {} | Some l \<Rightarrow> undefined_props l) \<union>
         undefined_props serverTask"
    using sid(1) by (simp_all add: merged_task_explicit)
  have created: "created_at ?m' =
         (if truthy (created_at serverTask) then created_at serverTask
          else case store_get local_A s of
                 None \<Rightarrow> updated_at ?m'
               | Some l \<Rightarrow> if truthy (created_at l) then created_at l else updated_at ?m')"
    using merged_task_created_at[of now local_A "store_get local_A s" serverTask]
    by (simp split: option.splits)
  from s' fields created show ?thesis unfolding old[symmetric] by blast
qed

theorem updateTaskAfterSync_conflict_witness:
  "wf_store [rec_A, rec_B] \<and> task_id partial_row = Some ''srv-1'' \<and> ''srv-1'' \<noteq> [] \<and>
   rec_B \<in> set [rec_A, rec_B] \<and> task_id rec_B = Some ''srv-1'' \<and>
   local_id rec_B = Some ''local_B'' \<and> ''local_B'' \<noteq> ''local_A'' \<and>
   store_get ''local_A'' [rec_A, rec_B] = Some rec_A \<and>
   (\<exists>s' m. updateTaskAfterSync ''2024-01-01T00:00:00.000Z'' ''local_A'' partial_row
              [rec_A, rec_B] = Inr s' \<and>
       store_get ''local_A'' s' = None \<and> store_get ''local_B'' s' = Some m \<and>
       local_id m = Some ''local_B'' \<and> sync_status m = Some Synced \<and>
       task_id m = Some ''srv-1'' \<and> title m = ''Buy milk today'' \<and>
       status m = In_progress \<and> description m = Defined ''two litres'' \<and>
       assigned_to m = Null \<and> is_deleted m = None \<and>
       updated_at m = Some ''2023-12-31T12:00:00.000Z'' \<and>
       created_at m = Some ''2023-12-31T10:00:00.000Z'' \<and>
       undefined_props m = {P_is_deleted})"
proof -
  have h1: "wf_store [rec_A, rec_B]" by (simp add: wf_store_def rec_A_def rec_B_def)
  have h2: "task_id partial_row = Some ''srv-1''" by (simp add: partial_row_def)
  have h3: "''srv-1'' \<noteq> []" by simp
  have h4: "rec_B \<in> set [rec_A, rec_B]" by simp
  have h5: "task_id rec_B = Some ''srv-1''" by (simp add: rec_B_def)
  have h6: "local_id rec_B = Some ''local_B''" by (simp add: rec_B_def)
  have h7: "''local_B'' \<noteq> ''local_A''" by simp
  have h8: "store_get ''local_A'' [rec_A, rec_B] = Some rec_A"
    by (simp add: store_get_def rec_A_def)
  from updateTaskAfterSync_conflict[OF h1 h2 h3 h4 h5 h6 h7 h8,
      of "''2024-01-01T00:00:00.000Z''"]
  have "\<exists>s' m. updateTaskAfterSync ''2024-01-01T00:00:00.000Z'' ''local_A'' partial_row
              [rec_A, rec_B] = Inr s' \<and>
       store_get ''local_A'' s' = None \<and> store_get ''local_B'' s' = Some m \<and>
       local_id m = Some ''local_B'' \<and> sync_status m = Some Synced \<and>
       task_id m = Some ''srv-1'' \<and> title m = ''Buy milk today'' \<and>
       status m = In_progress \<and> description m = Defined ''two litres'' \<and>
       assigned_to m = Null \<and> is_deleted m = None \<and>
       updated_at m = Some ''2023-12-31T12:00:00.000Z'' \<and>
       created_at m = Some ''2023-12-31T10:00:00.000Z'' \<and>
       undefined_props m = {P_is_deleted}"
    by (simp add: partial_row_def rec_A_def)
  with h1 h2 h3 h4 h5 h6 h7 h8 show ?thesis by blast
qed

subsection \<open>One record per server id\<close>

lemma index_get_None_iff: "index_get i s = None \<longleftrightarrow> (\<forall>r\<in>set s. task_id r \<noteq> Some i)"
  unfolding index_get_def by (induction s) auto








subsection \<open>bulkSaveTasks against saveTask\<close>


lemma bulk_stamp_fields:
  "local_id (bulk_stamp c t) = local_id t" "task_id (bulk_stamp c t) = task_id t"
  "title (bulk_stamp c t) = title t" "description (bulk_stamp c t) = description t"
  "assigned_to (bulk_stamp c t) = assigned_to t" "status (bulk_stamp c t) = status t"
  "is_deleted (bulk_stamp c t) = is_deleted t"
  by (simp_all add: bulk_stamp_def Let_def)

lemma bulkSaveTasks_single:
  "bulkSaveTasks [(c, t)] s = store_put (bulkTaskToSave c t s) s"
  by (simp add: bulkSaveTasks_def split: sum.splits)



















subsection \<open>A synced record has a server id\<close>

lemma synced_has_id_put_rec:
  assumes "synced_has_id s" "sync_status t = Some Synced \<longrightarrow> truthy (task_id t)"
  shows "synced_has_id (put_rec t s)"
  unfolding synced_has_id_def
proof (intro ballI impI)
  fix r assume "r \<in> set (put_rec t s)" "sync_status r = Some Synced"
  with set_put_rec_subset[of t s] have "r = t \<or> r \<in> set s" by blast
  with assms \<open>sync_status r = Some Synced\<close> show "truthy (task_id r)"
    unfolding synced_has_id_def by blast
qed

lemma synced_has_id_store_put:
  "synced_has_id s \<Longrightarrow> sync_status t = Some Synced \<longrightarrow> truthy (task_id t) \<Longrightarrow>
   store_put t s = Inr s' \<Longrightarrow> synced_has_id s'"
  by (cases "local_id t"; cases "violates_index t s")
     (auto simp: store_put_def intro: synced_has_id_put_rec)

lemma synced_has_id_delete: "synced_has_id s \<Longrightarrow> synced_has_id (store_delete k s)"
  by (simp add: synced_has_id_def store_delete_def)

lemma taskToSave_synced:
  "sync_status (taskToSave c t s) = Some Synced \<Longrightarrow> truthy (task_id (taskToSave c t s))"
  by (simp add: taskToSave_def stamp_def mark_new_def Let_def consolidate_fields
        ensure_local_id_fields split: if_splits)

lemma saveTask_synced_has_id:
  assumes "synced_has_id s" "saveTask c t s = Inr (k, s')"
  shows "synced_has_id s'"
proof -
  from assms(2) have "s' = put_rec (taskToSave c t s) s"
    by (cases "local_id (taskToSave c t s)"; cases "violates_index (taskToSave c t s) s")
       (simp_all add: saveTask_eq)
  with assms(1) show ?thesis by (simp add: synced_has_id_put_rec taskToSave_synced)
qed

lemma bulkTaskToSave_task_id: "task_id (bulkTaskToSave c t s) = task_id t"
  by (simp add: bulkTaskToSave_def bulk_stamp_fields consolidate_fields bulk_local_id_def)

lemma bulk_loop_synced_has_id:
  "synced_has_id s \<Longrightarrow> \<forall>(c, t) \<in> set batch. truthy (task_id t) \<Longrightarrow>
   bulk_loop batch s = Inr s' \<Longrightarrow> synced_has_id s'"
proof (induction batch arbitrary: s)
  case Nil
  then show ?case by simp
next
  case (Cons p batch)
  obtain c t where p: "p = (c, t)" by (cases p)
  from Cons.prems(2) p have t: "truthy (task_id t)" and rest: "\<forall>(c, t) \<in> set batch. truthy (task_id t)"
    by simp_all
  show ?case
  proof (cases "store_put (bulkTaskToSave c t s) s")
    case (Inl e)
    with Cons.prems(3) p show ?thesis by simp
  next
    case (Inr s1)
    have "synced_has_id s1"
      using Cons.prems(1) _ Inr
      by (rule synced_has_id_store_put) (simp add: bulkTaskToSave_task_id t)
    moreover from Cons.prems(3) p Inr have "bulk_loop batch s1 = Inr s'" by simp
    ultimately show ?thesis using rest by (intro Cons.IH)
  qed
qed

lemma merged_task_id:
  "truthy (task_id srv) \<Longrightarrow> truthy (task_id (merged_task now k l srv))"
  by (auto simp: merged_task_fields dest!: truthyE intro: overlay_task_id[THEN ssubst])

lemma updateTaskAfterSync_synced_has_id:
  assumes inv: "synced_has_id s" and i: "truthy (task_id srv)"
    and ok: "updateTaskAfterSync now k srv s = Inr s'"
  shows "synced_has_id s'"
proof (cases "conflict_local_id k srv s")
  case None
  with ok have p: "store_put (merged_task now k (store_get k s) srv) s = Inr s'"
    by (simp add: updateTaskAfterSync_def Let_def)
  show ?thesis
    using inv _ p by (rule synced_has_id_store_put) (simp add: merged_task_id i)
next
  case (Some f)
  let ?m = "(merged_task now k (store_get k s) srv)\<lparr>local_id := Some f\<rparr>"
  show ?thesis
  proof (cases "store_put ?m s")
    case (Inl e)
    with ok Some show ?thesis by (simp add: updateTaskAfterSync_def Let_def)
  next
    case (Inr s1)
    have s1: "synced_has_id s1"
      using inv _ Inr by (rule synced_has_id_store_put) (simp add: merged_task_id i)
    from ok Some Inr have "s' = store_delete k s1 \<or> s' = s1"
      by (auto simp: updateTaskAfterSync_def Let_def split: if_splits)
    with s1 show ?thesis by (auto intro: synced_has_id_delete)
  qed
qed

lemma updateLocalTaskStatus_synced_has_id:
  assumes inv: "synced_has_id s"
    and g: "st = Synced \<longrightarrow>
        truthy sid \<or> (case store_get k s of None \<Rightarrow> False | Some t \<Rightarrow> truthy (task_id t))"
    and ok: "updateLocalTaskStatus now k st sid upd s = Inr s'"
  shows "synced_has_id s'"
proof (cases "store_get k s")
  case None
  with ok inv show ?thesis by (simp add: updateLocalTaskStatus_def)
next
  case (Some t)
  let ?t1 = "t\<lparr>local_id := Some k, sync_status := Some st,
                updated_at := (if truthy upd then upd else Some now)\<rparr>"
  let ?t2 = "if truthy sid then ?t1\<lparr>task_id := sid\<rparr> else ?t1"
  from ok Some have p: "store_put ?t2 s = Inr s'"
    by (simp add: updateLocalTaskStatus_def Let_def)
  have "sync_status ?t2 = Some Synced \<longrightarrow> truthy (task_id ?t2)"
    using g Some by auto
  with inv show ?thesis using p by (rule synced_has_id_store_put)
qed

lemma apply_op_synced_has_id:
  "synced_has_id s \<Longrightarrow> carries_id op s \<Longrightarrow> synced_has_id (apply_op op s)"
proof (cases op)
  case (Save c t)
  assume "synced_has_id s"
  then show ?thesis using Save
    by (cases "saveTask c t s") (auto simp: or_unchanged_def intro: saveTask_synced_has_id)
next
  case (BulkSave batch)
  assume "synced_has_id s" "carries_id op s"
  then show ?thesis using BulkSave
    by (cases "bulkSaveTasks batch s")
       (auto simp: or_unchanged_def bulkSaveTasks_def intro: bulk_loop_synced_has_id)
next
  case (Reconcile now k srv)
  assume "synced_has_id s" "carries_id op s"
  then show ?thesis using Reconcile
    by (cases "updateTaskAfterSync now k srv s")
       (auto simp: or_unchanged_def intro: updateTaskAfterSync_synced_has_id)
next
  case (SetStatus now k st sid upd)
  assume "synced_has_id s" "carries_id op s"
  then show ?thesis using SetStatus
    by (cases "updateLocalTaskStatus now k st sid upd s")
       (auto simp: or_unchanged_def intro: updateLocalTaskStatus_synced_has_id)
qed

lemma run_ops_synced_has_id:
  "synced_has_id s \<Longrightarrow> all_carry_id ops s \<Longrightarrow> synced_has_id (run_ops ops s)"
  by (induction ops arbitrary: s) (simp_all add: apply_op_synced_has_id)

text \<open>
  C4, as amended. saveTask preserves the invariant that a \<^verbatim>\<open>synced\<close> record has a
  server \<^verbatim>\<open>id\<close> on every input; bulkSaveTasks, updateTaskAfterSync and
  updateLocalTaskStatus preserve it when they are given an \<^verbatim>\<open>id\<close> for what they write
  as \<^verbatim>\<open>synced\<close>. No sequence of such calls from the empty store produces a \<^verbatim>\<open>synced\<close>
  record without an \<^verbatim>\<open>id\<close>.
\<close>

theorem synced_has_id_preserved:
  "all_carry_id ops [] \<Longrightarrow> synced_has_id (run_ops ops [])"
  by (rule run_ops_synced_has_id) (simp add: synced_has_id_def)


lemma save_buy_milk:
  "saveTask sample_readings buy_milk [] =
     Inr (''local_1'', [buy_milk\<lparr>created_at := Some ''2024-01-01T00:00:00.001Z'',
                                 updated_at := Some ''2024-01-01T00:00:00.001Z''\<rparr>])"
  by (simp add: saveTask_eq violates_index_def taskToSave_def stamp_def mark_new_def
        consolidate_def ensure_local_id_def lacks_local_id_def trim_def is_ws1_def is_ws2_def is_ws3_def
        buy_milk_def sample_readings_def Let_def)

theorem synced_has_id_preserved_witness:
  "all_carry_id
     [Save sample_readings buy_milk,
      Reconcile ''2024-01-01T00:00:01.000Z'' ''local_1'' server_row,
      SetStatus ''2024-01-01T00:00:02.000Z'' ''local_1'' Synced None None] [] \<and>
   synced_has_id (run_ops
     [Save sample_readings buy_milk,
      Reconcile ''2024-01-01T00:00:01.000Z'' ''local_1'' server_row,
      SetStatus ''2024-01-01T00:00:02.000Z'' ''local_1'' Synced None None] [])"
proof -
  let ?r1 = "buy_milk\<lparr>created_at := Some ''2024-01-01T00:00:00.001Z'',
                      updated_at := Some ''2024-01-01T00:00:00.001Z''\<rparr>"
  have s1: "apply_op (Save sample_readings buy_milk) [] = [?r1]"
    by (simp add: save_buy_milk or_unchanged_def)
  have s2: "apply_op (Reconcile ''2024-01-01T00:00:01.000Z'' ''local_1'' server_row) [?r1] =
      [server_row\<lparr>local_id := Some ''local_1''\<rparr>]"
    by (simp add: or_unchanged_def updateTaskAfterSync_def conflict_local_id_def
          index_get_def store_get_def store_put_def violates_index_def merged_task_def
          overlay_def spread_def over_def over_nullable_def buy_milk_def server_row_def
          Let_def)
  have g: "all_carry_id
     [Save sample_readings buy_milk,
      Reconcile ''2024-01-01T00:00:01.000Z'' ''local_1'' server_row,
      SetStatus ''2024-01-01T00:00:02.000Z'' ''local_1'' Synced None None] []"
    unfolding all_carry_id.simps s1 s2 carries_id.simps
    by (simp add: store_get_def server_row_def)
  from synced_has_id_preserved[OF g] g show ?thesis by blast
qed

text \<open>
  C4 as stated fails: updateLocalTaskStatus sets the status it is given, so a record
  saved without an \<^verbatim>\<open>id\<close> and then set to \<^verbatim>\<open>synced\<close> is \<^verbatim>\<open>synced\<close> without an \<^verbatim>\<open>id\<close>.
\<close>

theorem setStatus_synced_without_id:
  "run_ops [Save sample_readings buy_milk,
            SetStatus ''2024-01-01T00:00:02.000Z'' ''local_1'' Synced None None] [] =
     [buy_milk\<lparr>created_at := Some ''2024-01-01T00:00:00.001Z'',
               updated_at := Some ''2024-01-01T00:00:02.000Z'',
               sync_status := Some Synced\<rparr>] \<and>
   task_id (buy_milk\<lparr>created_at := Some ''2024-01-01T00:00:00.001Z'',
               updated_at := Some ''2024-01-01T00:00:02.000Z'',
               sync_status := Some Synced\<rparr>) = None \<and>
   \<not> synced_has_id
     (run_ops [Save sample_readings buy_milk,
               SetStatus ''2024-01-01T00:00:02.000Z'' ''local_1'' Synced None None] [])"
proof -
  have r: "run_ops [Save sample_readings buy_milk,
            SetStatus ''2024-01-01T00:00:02.000Z'' ''local_1'' Synced None None] [] =
     [buy_milk\<lparr>created_at := Some ''2024-01-01T00:00:00.001Z'',
               updated_at := Some ''2024-01-01T00:00:02.000Z'',
               sync_status := Some Synced\<rparr>]"
    by (simp add: save_buy_milk or_unchanged_def)
       (simp add: updateLocalTaskStatus_def store_get_def store_put_def violates_index_def
          buy_milk_def Let_def)
  show ?thesis unfolding r by (simp add: synced_has_id_def buy_milk_def)
qed

subsection \<open>The sync engine\<close>

lemma engine_updateTaskAfterSync_frame:
  "isSyncing (snd (engine_updateTaskAfterSync W k srv e)) = isSyncing e"
  "lastSyncItem (snd (engine_updateTaskAfterSync W k srv e)) = lastSyncItem e"
  by (simp_all add: engine_updateTaskAfterSync_def split: prod.splits bool.splits sum.splits)

lemma engine_updateTaskAfterSync_rejects:
  "fst (engine_updateTaskAfterSync W k srv e) \<noteq> None \<Longrightarrow>
   db (snd (engine_updateTaskAfterSync W k srv e)) = db e"
  by (simp add: engine_updateTaskAfterSync_def split: prod.splits bool.splits sum.splits)

lemma push_one_frame:
  "isSyncing (push_one W t e) = isSyncing e"
  "lastSyncItem (push_one W t e) = lastSyncItem e"
  by (simp_all add: push_one_def engine_updateTaskAfterSync_frame
        split: prod.splits sum.splits option.splits)

lemma push_loop_frame:
  "isSyncing (push_loop W ts e) = isSyncing e"
  "lastSyncItem (push_loop W ts e) = lastSyncItem e"
  by (induction ts arbitrary: e) (simp_all add: push_one_frame)

lemma push_loop_append:
  "push_loop W (xs @ ys) e = push_loop W ys (push_loop W xs e)"
  by (induction xs arbitrary: e) simp_all

lemma push_failed_db: "push_failed W t e \<Longrightarrow> db (push_one W t e) = db e"
  by (auto simp: push_failed_def push_one_def engine_updateTaskAfterSync_rejects
        split: prod.splits sum.splits option.splits)

lemma engine_bulkSaveTasks_frame:
  "isSyncing (snd (engine_bulkSaveTasks W ts e)) = isSyncing e"
  "lastSyncItem (snd (engine_bulkSaveTasks W ts e)) = lastSyncItem e"
  by (simp_all add: engine_bulkSaveTasks_def split: prod.splits bool.splits sum.splits)

lemma pull_phase_returns:
  "pull_phase W b f e = (Inr r, e') \<Longrightarrow>
   \<not> isSyncing e' \<and> success r \<and> error r = None"
  by (auto simp: pull_phase_def Let_def setLastSyncTimestamp_def
        split: prod.splits sum.splits option.splits if_splits)

lemma catch_block_settles:
  "\<not> isSyncing (snd (catch_block (Inl err, e')))"
  "fst (catch_block (Inl err, e')) =
     \<lparr> success = False, updatedTasks = None, error = Some (Thrown err) \<rparr>"
  "catch_block (Inr r, e') = (r, e')"
  by (simp_all add: catch_block_def)

lemma catch_pull_phase:
  "\<not> isSyncing (snd (catch_block (pull_phase W b f e))) \<and>
   ((success (fst (catch_block (pull_phase W b f e))) \<and>
     error (fst (catch_block (pull_phase W b f e))) = None) \<or>
    (\<not> success (fst (catch_block (pull_phase W b f e))) \<and>
     updatedTasks (fst (catch_block (pull_phase W b f e))) = None \<and>
     (\<exists>err. error (fst (catch_block (pull_phase W b f e))) = Some (Thrown err))))"
proof (cases "pull_phase W b f e")
  case (Pair outcome e')
  show ?thesis
  proof (cases outcome)
    case (Inl err)
    with Pair show ?thesis by (simp add: catch_block_settles)
  next
    case (Inr r)
    with Pair pull_phase_returns[of W b f e r e'] show ?thesis
      by (simp add: catch_block_settles)
  qed
qed

text \<open>
  C5. A call of synchronize that passes the two preconditions, and so sets the flag,
  returns with the flag reset, whatever happens in between: a failed push, a failed
  fetch, a rejected store call. What it returns is a result record: a success without
  an error, or a failure that carries the error that was thrown.
\<close>

theorem synchronize_resets_flag:
  assumes "navigator_onLine b \<noteq> Some False" and "\<not> isSyncing e"
  shows "\<not> isSyncing (snd (synchronize W b f e)) \<and>
    ((success (fst (synchronize W b f e)) \<and> error (fst (synchronize W b f e)) = None) \<or>
     (\<not> success (fst (synchronize W b f e)) \<and>
      updatedTasks (fst (synchronize W b f e)) = None \<and>
      (\<exists>err. error (fst (synchronize W b f e)) = Some (Thrown err))))"
proof (cases "engine_getPendingChanges W (e\<lparr>isSyncing := True\<rparr>)")
  case (Pair outcome e1)
  show ?thesis
  proof (cases outcome)
    case (Inl err)
    with Pair assms show ?thesis
      by (simp add: synchronize_def try_block_def catch_block_settles)
  next
    case (Inr pendingTasks)
    with Pair assms have "synchronize W b f e =
        catch_block (pull_phase W b f (push_loop W pendingTasks e1))"
      by (simp add: synchronize_def try_block_def)
    then show ?thesis using catch_pull_phase by simp
  qed
qed

text \<open>
  C6, as amended. Called while the flag is set, synchronize returns at once with a
  failure result and leaves the engine as it is: the store, the watermark, the flag
  and the world (no database read, no query to the server). The result is
  \<^verbatim>\<open>Sync in progress\<close> when the browser is online and \<^verbatim>\<open>Offline\<close> when it is not, since
  connectivity is tested first.
\<close>

theorem synchronize_while_syncing:
  assumes "isSyncing e"
  shows "synchronize W b f e =
     (\<lparr> success = False, updatedTasks = None,
        error = Some (if navigator_onLine b = Some False then Offline else Sync_in_progress) \<rparr>,
      e)"
  using assms by (simp add: synchronize_def)

text \<open>
  C10. When the pending changes could be read and the fetch of the pull phase returns
  an error, synchronize still returns a success (without updated tasks), with the
  watermark set to the current time and the flag reset; nothing but the push phase
  has touched the store.
\<close>

theorem pull_fetch_error_is_success:
  assumes on: "navigator_onLine b \<noteq> Some False" and idle: "\<not> isSyncing e"
    and win: "has_window b"
    and pend: "engine_getPendingChanges W (e\<lparr>isSyncing := True\<rparr>) = (Inr pendingTasks, e1)"
    and fetch: "fetchServerUpdates W
        (if f then None else getLastSyncTimestamp b (push_loop W pendingTasks e1))
        (world (push_loop W pendingTasks e1)) = (Inl fetchError, w3)"
    and clk: "clock W w3 = (c, w4)"
  shows "synchronize W b f e =
     (\<lparr> success = True, updatedTasks = None, error = None \<rparr>,
      (push_loop W pendingTasks e1)
        \<lparr>world := w4, lastSyncItem := Some (iso1 c), isSyncing := False\<rparr>)"
proof -
  have "synchronize W b f e = catch_block (pull_phase W b f (push_loop W pendingTasks e1))"
    using on idle pend by (simp add: synchronize_def try_block_def)
  moreover have "pull_phase W b f (push_loop W pendingTasks e1) =
     (Inr \<lparr> success = True, updatedTasks = None, error = None \<rparr>,
      (push_loop W pendingTasks e1)
        \<lparr>world := w4, lastSyncItem := Some (iso1 c), isSyncing := False\<rparr>)"
    using fetch clk win by (simp add: pull_phase_def Let_def setLastSyncTimestamp_def)
  ultimately show ?thesis by (simp add: catch_block_settles)
qed

text \<open>What a later push and the pull phase leave alone.\<close>

lemma wf_store_same_key:
  assumes "wf_store s" "x \<in> set s" "y \<in> set s" "local_id x = local_id y"
  shows "x = y"
proof -
  from assms(1) have "inj_on local_id (set s)"
    by (auto dest: wf_store_distinctD simp: distinct_map)
  with assms(2-4) show ?thesis by (auto dest: inj_onD)
qed

lemma store_put_frame:
  assumes "store_put t s = Inr s'" "local_id t \<noteq> Some k"
  shows "store_get k s' = store_get k s"
proof -
  from assms(1) have "s' = put_rec t s"
    by (cases "local_id t"; cases "violates_index t s") (simp_all add: store_put_def)
  with assms(2) show ?thesis by (simp add: store_get_put_rec_other)
qed

lemma store_put_wf:
  assumes "wf_store s" "store_put t s = Inr s'" "truthy (local_id t)"
  shows "wf_store s'"
proof -
  from assms(2) have "s' = put_rec t s" "\<not> violates_index t s"
    by (cases "local_id t"; cases "violates_index t s"; simp add: store_put_def)+
  with assms(1,3) show ?thesis by (simp add: wf_store_put_rec)
qed

lemma conflict_local_idD:
  assumes "conflict_local_id k' srv s = Some c"
  shows "\<exists>i e. task_id srv = Some i \<and> i \<noteq> [] \<and> index_get i s = Some e \<and>
           local_id e = Some c \<and> c \<noteq> []"
proof (cases "task_id srv")
  case None
  with assms show ?thesis by (simp add: conflict_local_id_def)
next
  case (Some i)
  show ?thesis
  proof (cases "i = []")
    case True
    with Some assms show ?thesis by (simp add: conflict_local_id_def)
  next
    case False
    show ?thesis
    proof (cases "index_get i s")
      case None
      with Some False assms show ?thesis by (simp add: conflict_local_id_def)
    next
      case (Some e)
      with \<open>task_id srv = Some i\<close> False assms
      have "truthy (local_id e) \<and> local_id e = Some c"
        by (simp add: conflict_local_id_def split: if_splits)
      with Some \<open>task_id srv = Some i\<close> False show ?thesis by auto
    qed
  qed
qed

lemma conflict_spares:
  assumes wf: "wf_store s" and r: "store_get k s = Some r"
    and spare: "\<not> (truthy (task_id srv) \<and> task_id srv = task_id r)"
    and c: "conflict_local_id k' srv s = Some c"
  shows "c \<noteq> k"
proof
  assume "c = k"
  from conflict_local_idD[OF c] obtain i e where e: "task_id srv = Some i" "i \<noteq> []"
      "index_get i s = Some e" "local_id e = Some c"
    by blast
  from e(3) have es: "e \<in> set s" "task_id e = Some i" by (auto dest: index_get_SomeD)
  from r have rs: "r \<in> set s" "local_id r = Some k" by (auto dest: store_get_SomeD)
  have "e = r" using wf_store_same_key[OF wf es(1) rs(1)] e(4) rs(2) \<open>c = k\<close> by simp
  with es(2) e(1,2) spare show False by simp
qed

lemma updateTaskAfterSync_frame:
  assumes wf: "wf_store s" and r: "store_get k s = Some r"
    and k': "k' \<noteq> k" "k' \<noteq> []"
    and spare: "\<not> (truthy (task_id srv) \<and> task_id srv = task_id r)"
    and ok: "updateTaskAfterSync now k' srv s = Inr s'"
  shows "store_get k s' = Some r \<and> wf_store s'"
proof (cases "conflict_local_id k' srv s")
  case None
  let ?m = "merged_task now k' (store_get k' s) srv"
  from ok None have p: "store_put ?m s = Inr s'"
    by (simp add: updateTaskAfterSync_def Let_def)
  have l: "local_id ?m = Some k'" by (simp add: merged_task_fields)
  from store_put_frame[OF p] l k'(1) r have "store_get k s' = Some r" by simp
  moreover have "wf_store s'" using store_put_wf[OF wf p] l k'(2) by simp
  ultimately show ?thesis by simp
next
  case (Some c)
  let ?m = "(merged_task now k' (store_get k' s) srv)\<lparr>local_id := Some c\<rparr>"
  from conflict_spares[OF wf r spare Some] have ck: "c \<noteq> k" .
  from conflict_local_idD[OF Some] have cne: "c \<noteq> []" by blast
  show ?thesis
  proof (cases "store_put ?m s")
    case (Inl err)
    with ok Some show ?thesis by (simp add: updateTaskAfterSync_def Let_def)
  next
    case (Inr s1)
    from store_put_frame[OF Inr] ck r have g1: "store_get k s1 = Some r" by simp
    have wf1: "wf_store s1" using store_put_wf[OF wf Inr] cne by simp
    from ok Some Inr have "s' = store_delete k' s1 \<or> s' = s1"
      by (auto simp: updateTaskAfterSync_def Let_def split: if_splits)
    then show ?thesis
    proof
      assume "s' = store_delete k' s1"
      with g1 wf1 k'(1) show ?thesis by (simp add: store_get_delete_other wf_store_delete)
    next
      assume "s' = s1"
      with g1 wf1 show ?thesis by simp
    qed
  qed
qed

lemma engine_updateTaskAfterSync_db:
  "db (snd (engine_updateTaskAfterSync W k srv e)) = db e \<or>
   (\<exists>now. updateTaskAfterSync now k srv (db e) =
      Inr (db (snd (engine_updateTaskAfterSync W k srv e))))"
  by (auto simp: engine_updateTaskAfterSync_def split: prod.splits bool.splits sum.splits)

lemma push_one_spares:
  assumes wf: "wf_store (db e)" and r: "store_get k (db e) = Some r"
    and key: "local_id t \<noteq> local_id r"
    and spare: "case fst (syncPendingTaskWithServer W t (world e)) of
         Inl err \<Rightarrow> True
       | Inr syncedTask \<Rightarrow> \<not> (truthy (task_id syncedTask) \<and> task_id syncedTask = task_id r)"
  shows "store_get k (db (push_one W t e)) = Some r \<and> wf_store (db (push_one W t e))"
proof (cases "syncPendingTaskWithServer W t (world e)")
  case (Pair answer w1)
  from r have lr: "local_id r = Some k" by (auto dest: store_get_SomeD)
  show ?thesis
  proof (cases answer)
    case (Inl err)
    with Pair wf r show ?thesis by (simp add: push_one_def)
  next
    case (Inr srv)
    with Pair spare have sp: "\<not> (truthy (task_id srv) \<and> task_id srv = task_id r)" by simp
    show ?thesis
    proof (cases "local_id t")
      case None
      with Pair Inr wf r show ?thesis by (simp add: push_one_def)
    next
      case (Some k')
      show ?thesis
      proof (cases "k' = []")
        case True
        with Some Pair Inr wf r show ?thesis by (simp add: push_one_def)
      next
        case False
        let ?e1 = "e\<lparr>world := w1\<rparr>"
        have p: "push_one W t e = snd (engine_updateTaskAfterSync W k' srv ?e1)"
          using Pair Inr Some False by (simp add: push_one_def)
        from key Some lr have kk: "k' \<noteq> k" by simp
        from engine_updateTaskAfterSync_db[of W k' srv ?e1]
        show ?thesis
        proof
          assume "db (snd (engine_updateTaskAfterSync W k' srv ?e1)) = db ?e1"
          with p wf r show ?thesis by simp
        next
          assume "\<exists>now. updateTaskAfterSync now k' srv (db ?e1) =
              Inr (db (snd (engine_updateTaskAfterSync W k' srv ?e1)))"
          then obtain now where "updateTaskAfterSync now k' srv (db e) =
              Inr (db (push_one W t e))"
            using p by auto
          from updateTaskAfterSync_frame[OF wf r kk False sp this] show ?thesis .
        qed
      qed
    qed
  qed
qed

lemma push_loop_spares:
  "wf_store (db e) \<Longrightarrow> store_get k (db e) = Some r \<Longrightarrow> later_pushes_spare W ts e r \<Longrightarrow>
   store_get k (db (push_loop W ts e)) = Some r \<and> wf_store (db (push_loop W ts e))"
proof (induction ts arbitrary: e)
  case Nil
  then show ?case by simp
next
  case (Cons t ts)
  from Cons.prems(3) have a: "local_id t \<noteq> local_id r"
    and b: "case fst (syncPendingTaskWithServer W t (world e)) of
         Inl err \<Rightarrow> True
       | Inr syncedTask \<Rightarrow> \<not> (truthy (task_id syncedTask) \<and> task_id syncedTask = task_id r)"
    and c: "later_pushes_spare W ts (push_one W t e) r"
    by simp_all
  from push_one_spares[OF Cons.prems(1,2) a b]
  have "store_get k (db (push_one W t e)) = Some r" "wf_store (db (push_one W t e))"
    by simp_all
  from Cons.IH[OF this(2,1) c] show ?case by simp
qed

lemma bulk_local_id_truthy: "truthy (local_id (bulk_local_id c t))"
  by (cases "local_id t"; cases "task_id t") (auto simp: bulk_local_id_def)

lemma bulkTaskToSave_truthy: "truthy (local_id (bulkTaskToSave c t s))"
  by (simp add: bulkTaskToSave_def bulk_stamp_fields consolidate_truthy bulk_local_id_truthy)

lemma bulk_local_id_not_addressed:
  "\<not> addresses row r \<Longrightarrow> local_id (bulk_local_id c row) \<noteq> local_id r"
  by (auto simp: addresses_def bulk_local_id_def split: if_splits)

lemma bulkTaskToSave_spares:
  assumes wf: "wf_store s" and r: "store_get k s = Some r" and na: "\<not> addresses row r"
  shows "local_id (bulkTaskToSave c row s) \<noteq> Some k"
proof
  assume eq: "local_id (bulkTaskToSave c row s) = Some k"
  from r have rs: "r \<in> set s" "local_id r = Some k" by (auto dest: store_get_SomeD)
  let ?t = "bulk_local_id c row"
  from na have own: "local_id ?t \<noteq> Some k" using rs(2) bulk_local_id_not_addressed by metis
  from na have ti: "truthy (task_id row)" "task_id row \<noteq> task_id r"
    by (auto simp: addresses_def)
  then obtain i where i: "task_id row = Some i" "i \<noteq> []" by (blast dest: truthyE)
  have tid: "task_id ?t = Some i" using i by (simp add: bulk_local_id_def)
  from eq have ceq: "local_id (consolidate s ?t) = Some k"
    by (simp add: bulkTaskToSave_def bulk_stamp_fields)
  show False
  proof (cases "index_get i s")
    case None
    with tid i(2) ceq own show False by (simp add: consolidate_def)
  next
    case (Some e)
    then have es: "e \<in> set s" "task_id e = Some i" by (auto dest: index_get_SomeD)
    from Some tid i(2) ceq own have "local_id e = Some k"
      by (simp add: consolidate_def split: if_splits)
    then have "e = r" using wf_store_same_key[OF wf es(1) rs(1)] rs(2) by simp
    with es(2) i(1) ti(2) show False by simp
  qed
qed

lemma bulk_loop_spares:
  "wf_store s \<Longrightarrow> store_get k s = Some r \<Longrightarrow> \<forall>(c, row) \<in> set batch. \<not> addresses row r \<Longrightarrow>
   bulk_loop batch s = Inr s' \<Longrightarrow> store_get k s' = Some r"
proof (induction batch arbitrary: s)
  case Nil
  then show ?case by simp
next
  case (Cons p batch)
  obtain c row where p: "p = (c, row)" by (cases p)
  from Cons.prems(3) p have na: "\<not> addresses row r"
    and rest: "\<forall>(c, row) \<in> set batch. \<not> addresses row r"
    by simp_all
  show ?case
  proof (cases "store_put (bulkTaskToSave c row s) s")
    case (Inl err)
    with Cons.prems(4) p show ?thesis by simp
  next
    case (Inr s1)
    from store_put_frame[OF Inr bulkTaskToSave_spares[OF Cons.prems(1,2) na]] Cons.prems(2)
    have g: "store_get k s1 = Some r" by simp
    have wf1: "wf_store s1" using Cons.prems(1) Inr bulkTaskToSave_truthy by (rule store_put_wf)
    from Cons.prems(4) p Inr have "bulk_loop batch s1 = Inr s'" by simp
    from Cons.IH[OF wf1 g rest this] show ?thesis .
  qed
qed

lemma draw_tasks: "map snd (fst (draw W ts w)) = ts"
proof (induction ts arbitrary: w)
  case Nil
  show ?case by simp
next
  case (Cons t ts)
  obtain c w1 where c: "clock W w = (c, w1)" by (cases "clock W w")
  obtain rest w2 where d: "draw W ts w1 = (rest, w2)" by (cases "draw W ts w1")
  from Cons[of w1] d have "map snd rest = ts" by simp
  with c d show ?case by simp
qed

lemma engine_bulkSaveTasks_spares:
  assumes wf: "wf_store (db e)" and r: "store_get k (db e) = Some r"
    and na: "\<forall>row \<in> set ts. \<not> addresses row r"
  shows "store_get k (db (snd (engine_bulkSaveTasks W ts e))) = Some r"
proof (cases "open_db W (world e)")
  case (Pair opened w1)
  show ?thesis
  proof (cases opened)
    case False
    with Pair r show ?thesis by (simp add: engine_bulkSaveTasks_def)
  next
    case True
    obtain batch w2 where d: "draw W ts w1 = (batch, w2)" by (cases "draw W ts w1")
    with draw_tasks[of W ts w1] have "map snd batch = ts" by simp
    with na have nb: "\<forall>(c, row) \<in> set batch. \<not> addresses row r" by force
    show ?thesis
    proof (cases "bulkSaveTasks batch (db e)")
      case (Inl err)
      with Pair True d r show ?thesis by (simp add: engine_bulkSaveTasks_def)
    next
      case (Inr s')
      then have "bulk_loop batch (db e) = Inr s'" by (simp add: bulkSaveTasks_def)
      from bulk_loop_spares[OF wf r nb this] Pair True d Inr show ?thesis
        by (simp add: engine_bulkSaveTasks_def)
    qed
  qed
qed

lemma pull_phase_spares:
  assumes wf: "wf_store (db e)" and r: "store_get k (db e) = Some r"
    and sp: "pull_spares W b f e r"
  shows "store_get k (db (snd (catch_block (pull_phase W b f e)))) = Some r"
proof -
  let ?ls = "if f then None else getLastSyncTimestamp b e"
  obtain fetched w1 where fe: "fetchServerUpdates W ?ls (world e) = (fetched, w1)"
    by (cases "fetchServerUpdates W ?ls (world e)")
  let ?e1 = "e\<lparr>world := w1\<rparr>"
  have quiet: "store_get k (db (snd (catch_block (pull_phase W b f e)))) = Some r"
    if "fetched = Inl msg \<or> fetched = Inr []" for msg
    using that fe r
    by (auto simp: pull_phase_def Let_def catch_block_def setLastSyncTimestamp_def
          split: prod.splits)
  show ?thesis
  proof (cases fetched)
    case (Inl msg)
    then show ?thesis using quiet by blast
  next
    case (Inr ts)
    show ?thesis
    proof (cases "ts = []")
      case True
      with Inr show ?thesis using quiet by blast
    next
      case False
      from sp fe Inr have na: "\<forall>row \<in> set ts. \<not> addresses row r"
        by (simp add: pull_spares_def)
      have g: "store_get k (db (snd (engine_bulkSaveTasks W ts ?e1))) = Some r"
        using engine_bulkSaveTasks_spares[of ?e1 k r ts W] wf r na by simp
      obtain res e2 where b2: "engine_bulkSaveTasks W ts ?e1 = (res, e2)"
        by (cases "engine_bulkSaveTasks W ts ?e1")
      with g have g2: "store_get k (db e2) = Some r" by simp
      show ?thesis
        using fe Inr False b2 g2
        by (cases res)
           (auto simp: pull_phase_def Let_def catch_block_def setLastSyncTimestamp_def
              split: prod.splits)
    qed
  qed
qed

text \<open>
  What the pass does keep of a failed push. When the push of one pending task fails (a
  failure result of the gateway, or a rejection that is caught), that push leaves the
  store unchanged, the remaining pending tasks are pushed, and the pull phase runs
  and decides the result. The record of the task is still in the store when
  synchronize returns in the case that no later push of the pass and no row of the
  pull addresses it; nothing in the pass protects it otherwise.
\<close>

lemma failed_push_is_isolated:
  assumes on: "navigator_onLine b \<noteq> Some False" and idle: "\<not> isSyncing e"
    and pend: "engine_getPendingChanges W (e\<lparr>isSyncing := True\<rparr>) =
                 (Inr (before @ t # after), e1)"
    and fail: "push_failed W t (push_loop W before e1)"
  shows "db (push_one W t (push_loop W before e1)) = db (push_loop W before e1) \<and>
     synchronize W b f e =
       catch_block (pull_phase W b f
         (push_loop W after (push_one W t (push_loop W before e1)))) \<and>
     (wf_store (db (push_loop W before e1)) \<and> local_id t = Some k \<and>
      store_get k (db (push_loop W before e1)) = Some t \<and>
      later_pushes_spare W after (push_one W t (push_loop W before e1)) t \<and>
      pull_spares W b f (push_loop W after (push_one W t (push_loop W before e1))) t \<longrightarrow>
        store_get k (db (snd (synchronize W b f e))) = Some t)"
proof -
  let ?E = "push_loop W before e1"
  let ?e2 = "push_one W t ?E"
  have d: "db ?e2 = db ?E" using fail by (rule push_failed_db)
  have "push_loop W (before @ t # after) e1 = push_loop W after ?e2"
    by (simp add: push_loop_append)
  then have s: "synchronize W b f e = catch_block (pull_phase W b f (push_loop W after ?e2))"
    using on idle pend by (simp add: synchronize_def try_block_def)
  have "store_get k (db (snd (synchronize W b f e))) = Some t"
    if wf: "wf_store (db ?E)" and g: "store_get k (db ?E) = Some t"
      and lp: "later_pushes_spare W after ?e2 t"
      and pl: "pull_spares W b f (push_loop W after ?e2) t"
  proof -
    from wf g d have "wf_store (db ?e2)" "store_get k (db ?e2) = Some t" by simp_all
    from push_loop_spares[OF this lp]
    have "store_get k (db (push_loop W after ?e2)) = Some t"
      "wf_store (db (push_loop W after ?e2))"
      by simp_all
    from pull_phase_spares[OF this(2,1) pl] s show ?thesis by simp
  qed
  with d s show ?thesis by blast
qed

text \<open>
  C7, as amended. A \<^verbatim>\<open>pending_create\<close> task without a server \<^verbatim>\<open>id\<close> is sent to
  \<^verbatim>\<open>createTask\<close>, a \<^verbatim>\<open>pending_update\<close> task with an \<^verbatim>\<open>id\<close> to \<^verbatim>\<open>updateTask\<close>, a
  \<^verbatim>\<open>pending_delete\<close> task with an \<^verbatim>\<open>id\<close> to \<^verbatim>\<open>softDeleteTask\<close>; the payload holds the
  domain fields only (title, description, assigned_to, status, and is_deleted for an
  update), and the call does not depend on \<^verbatim>\<open>local_id\<close> or the timestamps. Any other
  combination of status and \<^verbatim>\<open>id\<close> is answered with a failure result, without a call
  to the gateway.
\<close>

theorem syncPendingTaskWithServer_dispatch:
  "(sync_status t = Some Pending_create \<and> \<not> truthy (task_id t) \<longrightarrow>
      syncPendingTaskWithServer W t w =
        createTask W \<lparr> p_title = title t, p_description = or_null (description t),
                       p_assigned_to = or_null (assigned_to t), p_status = status t \<rparr> w) \<and>
   (sync_status t = Some Pending_update \<and> task_id t = Some i \<and> i \<noteq> [] \<longrightarrow>
      syncPendingTaskWithServer W t w =
        updateTask W i \<lparr> p_title = title t, p_description = or_null (description t),
                         p_assigned_to = or_null (assigned_to t), p_status = status t,
                         p_is_deleted = is_deleted t \<rparr> w) \<and>
   (sync_status t = Some Pending_delete \<and> task_id t = Some i \<and> i \<noteq> [] \<longrightarrow>
      syncPendingTaskWithServer W t w = softDeleteTask W i w) \<and>
   (\<not> (sync_status t = Some Pending_create \<and> \<not> truthy (task_id t)) \<and>
    \<not> (sync_status t = Some Pending_update \<and> truthy (task_id t)) \<and>
    \<not> (sync_status t = Some Pending_delete \<and> truthy (task_id t)) \<longrightarrow>
      syncPendingTaskWithServer W t w =
        (Inl (''Invalid sync_status or missing ID for task '' @ task_label t), w)) \<and>
   dispatch (t\<lparr>local_id := l, created_at := ca, updated_at := ua\<rparr>) = dispatch t"
proof (intro conjI impI)
  assume "sync_status t = Some Pending_create \<and> \<not> truthy (task_id t)"
  then show "syncPendingTaskWithServer W t w =
        createTask W \<lparr> p_title = title t, p_description = or_null (description t),
                       p_assigned_to = or_null (assigned_to t), p_status = status t \<rparr> w"
    by (simp add: syncPendingTaskWithServer_def dispatch_def perform_def payloadForCreate_def)
next
  assume "sync_status t = Some Pending_update \<and> task_id t = Some i \<and> i \<noteq> []"
  then show "syncPendingTaskWithServer W t w =
        updateTask W i \<lparr> p_title = title t, p_description = or_null (description t),
                         p_assigned_to = or_null (assigned_to t), p_status = status t,
                         p_is_deleted = is_deleted t \<rparr> w"
    by (simp add: syncPendingTaskWithServer_def dispatch_def perform_def payloadForUpdate_def)
next
  assume "sync_status t = Some Pending_delete \<and> task_id t = Some i \<and> i \<noteq> []"
  then show "syncPendingTaskWithServer W t w = softDeleteTask W i w"
    by (simp add: syncPendingTaskWithServer_def dispatch_def perform_def)
next
  assume "\<not> (sync_status t = Some Pending_create \<and> \<not> truthy (task_id t)) \<and>
    \<not> (sync_status t = Some Pending_update \<and> truthy (task_id t)) \<and>
    \<not> (sync_status t = Some Pending_delete \<and> truthy (task_id t))"
  then have "dispatch t = None"
    by (cases "task_id t") (auto simp: dispatch_def)
  then show "syncPendingTaskWithServer W t w =
        (Inl (''Invalid sync_status or missing ID for task '' @ task_label t), w)"
    by (simp add: syncPendingTaskWithServer_def)
next
  show "dispatch (t\<lparr>local_id := l, created_at := ca, updated_at := ua\<rparr>) = dispatch t"
    by (simp add: dispatch_def payloadForCreate_def payloadForUpdate_def split: option.splits)
qed

subsection \<open>Runs on example data\<close>

lemmas gateway_defs = syncPendingTaskWithServer_def dispatch_def perform_def createTask_def
  updateTask_def softDeleteTask_def tagged_def tag_synced_def payloadForCreate_def
  payloadForUpdate_def or_null_def task_label_def fetchServerUpdates_def
  getTasksModifiedSince_def

lemma pending_edited: "getPendingChanges [edited] = [edited]"
  by (simp add: getPendingChanges_def by_sync_status_def in_key_order_def edited_def rec_B_def)

lemma push_edited_refused:
  "syncPendingTaskWithServer refusing_world edited w = (Inl ''network error'', Suc w)"
  "syncPendingTaskWithServer unreachable_world edited w = (Inl ''network error'', Suc w)"
  by (simp_all add: gateway_defs refusing_world_def unreachable_world_def edited_def rec_B_def)

lemma bulk_over_edited:
  "bulkSaveTasks [(sample_readings, server_row)] [edited] =
     Inr [server_row\<lparr>local_id := Some ''local_B''\<rparr>]"
  by (simp add: bulkSaveTasks_single store_put_def violates_index_def bulkTaskToSave_def
        bulk_stamp_def consolidate_def index_get_def bulk_local_id_def server_row_def
        edited_def rec_B_def sample_readings_def Let_def)

lemma idle_engine_facts:
  "\<not> isSyncing idle_engine" "navigator_onLine online \<noteq> Some False" "has_window online"
  "idle_engine\<lparr>isSyncing := True\<rparr> =
     \<lparr> isSyncing = True, db = [edited], lastSyncItem = None, world = 0 \<rparr>"
  by (simp_all add: idle_engine_def online_def)

lemma pending_of_idle_engine:
  "engine_getPendingChanges refusing_world (idle_engine\<lparr>isSyncing := True\<rparr>) =
     (Inr [edited], \<lparr> isSyncing = True, db = [edited], lastSyncItem = None, world = 0 \<rparr>)"
  "engine_getPendingChanges unreachable_world (idle_engine\<lparr>isSyncing := True\<rparr>) =
     (Inr [edited], \<lparr> isSyncing = True, db = [edited], lastSyncItem = None, world = 0 \<rparr>)"
  by (simp_all add: engine_getPendingChanges_def idle_engine_def pending_edited
        refusing_world_def unreachable_world_def)

lemma push_one_edited:
  "push_one refusing_world edited
       \<lparr> isSyncing = True, db = [edited], lastSyncItem = None, world = 0 \<rparr> =
     \<lparr> isSyncing = True, db = [edited], lastSyncItem = None, world = Suc 0 \<rparr>"
  "push_one unreachable_world edited
       \<lparr> isSyncing = True, db = [edited], lastSyncItem = None, world = 0 \<rparr> =
     \<lparr> isSyncing = True, db = [edited], lastSyncItem = None, world = Suc 0 \<rparr>"
  by (simp_all add: push_one_def push_edited_refused)

lemma synchronize_idle_engine:
  "synchronize W online f idle_engine =
     catch_block (try_block W online f (idle_engine\<lparr>isSyncing := True\<rparr>))"
  by (simp add: synchronize_def idle_engine_facts)

text \<open>
  C8 fails in the code. The record under \<^verbatim>\<open>local_B\<close> holds a local edit of the server's
  row \<^verbatim>\<open>srv-1\<close>, newer than the row, and is \<^verbatim>\<open>pending_update\<close>. The update is refused by
  the server, so the push fails; the full fetch of the same pass returns the server's
  row, and bulkSaveTasks, which tests neither the \<^verbatim>\<open>sync_status\<close> nor the \<^verbatim>\<open>updated_at\<close>
  of the record it replaces, writes the row over the record. When synchronize
  returns, reporting success, the record is not unchanged and not pending: the edit
  is lost, the record is \<^verbatim>\<open>synced\<close>, and no pending change is left for a later pass to
  retry.
\<close>

theorem pull_overwrites_failed_push:
  "getPendingChanges (db idle_engine) = [edited] \<and>
   store_get ''local_B'' (db idle_engine) = Some edited \<and>
   sync_status edited = Some Pending_update \<and>
   updated_at edited = Some ''2023-12-31T18:00:00.000Z'' \<and>
   updated_at server_row = Some ''2023-12-31T12:00:00.000Z'' \<and>
   fst (syncPendingTaskWithServer refusing_world edited (world idle_engine)) =
     Inl ''network error'' \<and>
   synchronize refusing_world online True idle_engine =
     (\<lparr> success = True, updatedTasks = Some [server_row], error = None \<rparr>,
      \<lparr> isSyncing = False, db = [server_row\<lparr>local_id := Some ''local_B''\<rparr>],
        lastSyncItem = Some ''2024-01-01T00:00:00.000Z'', world = Suc (Suc 0) \<rparr>) \<and>
   store_get ''local_B'' (db (snd (synchronize refusing_world online True idle_engine))) =
     Some (server_row\<lparr>local_id := Some ''local_B''\<rparr>) \<and>
   server_row\<lparr>local_id := Some ''local_B''\<rparr> \<noteq> edited \<and>
   title (server_row\<lparr>local_id := Some ''local_B''\<rparr>) = ''Buy milk'' \<and>
   title edited = ''Buy oat milk'' \<and>
   sync_status (server_row\<lparr>local_id := Some ''local_B''\<rparr>) = Some Synced \<and>
   getPendingChanges (db (snd (synchronize refusing_world online True idle_engine))) = []"
proof -
  have p: "getPendingChanges (db idle_engine) = [edited]"
    by (simp add: idle_engine_def pending_edited)
  have g0: "store_get ''local_B'' (db idle_engine) = Some edited"
    by (simp add: idle_engine_def store_get_def edited_def rec_B_def)
  have ed: "sync_status edited = Some Pending_update"
      "updated_at edited = Some ''2023-12-31T18:00:00.000Z''" "title edited = ''Buy oat milk''"
    by (simp_all add: edited_def rec_B_def)
  have sr: "updated_at server_row = Some ''2023-12-31T12:00:00.000Z''"
      "title (server_row\<lparr>local_id := Some ''local_B''\<rparr>) = ''Buy milk''"
      "sync_status (server_row\<lparr>local_id := Some ''local_B''\<rparr>) = Some Synced"
    by (simp_all add: server_row_def)
  have f: "fetchServerUpdates refusing_world None w = (Inr [server_row], Suc w)" for w
    by (simp add: gateway_defs refusing_world_def server_row_def)
  have b: "engine_bulkSaveTasks refusing_world [server_row]
        \<lparr> isSyncing = True, db = [edited], lastSyncItem = None, world = w \<rparr> =
      (None, \<lparr> isSyncing = True, db = [server_row\<lparr>local_id := Some ''local_B''\<rparr>],
               lastSyncItem = None, world = w \<rparr>)" for w
    by (simp add: engine_bulkSaveTasks_def refusing_world_def bulk_over_edited)
  have c: "clock refusing_world w = (sample_readings, w)" for w
    by (simp add: refusing_world_def)
  have pull: "pull_phase refusing_world online True
        \<lparr> isSyncing = True, db = [edited], lastSyncItem = None, world = Suc 0 \<rparr> =
      (Inr \<lparr> success = True, updatedTasks = Some [server_row], error = None \<rparr>,
       \<lparr> isSyncing = False, db = [server_row\<lparr>local_id := Some ''local_B''\<rparr>],
         lastSyncItem = Some ''2024-01-01T00:00:00.000Z'', world = Suc (Suc 0) \<rparr>)"
    by (simp add: pull_phase_def f b c Let_def setLastSyncTimestamp_def online_def
          sample_readings_def)
  have t: "try_block refusing_world online True (idle_engine\<lparr>isSyncing := True\<rparr>) =
      (Inr \<lparr> success = True, updatedTasks = Some [server_row], error = None \<rparr>,
       \<lparr> isSyncing = False, db = [server_row\<lparr>local_id := Some ''local_B''\<rparr>],
         lastSyncItem = Some ''2024-01-01T00:00:00.000Z'', world = Suc (Suc 0) \<rparr>)"
    by (simp add: try_block_def pending_of_idle_engine push_one_edited pull)
  have s: "synchronize refusing_world online True idle_engine =
     (\<lparr> success = True, updatedTasks = Some [server_row], error = None \<rparr>,
      \<lparr> isSyncing = False, db = [server_row\<lparr>local_id := Some ''local_B''\<rparr>],
        lastSyncItem = Some ''2024-01-01T00:00:00.000Z'', world = Suc (Suc 0) \<rparr>)"
    by (simp add: synchronize_idle_engine t catch_block_def)
  have g1: "store_get ''local_B''
        (db (snd (synchronize refusing_world online True idle_engine))) =
      Some (server_row\<lparr>local_id := Some ''local_B''\<rparr>)"
    unfolding s by (simp add: store_get_def server_row_def)
  have n: "server_row\<lparr>local_id := Some ''local_B''\<rparr> \<noteq> edited"
    by (simp add: server_row_def edited_def rec_B_def)
  have q: "getPendingChanges (db (snd (synchronize refusing_world online True idle_engine))) = []"
    unfolding s
    by (simp add: getPendingChanges_def by_sync_status_def in_key_order_def server_row_def)
  have r: "fst (syncPendingTaskWithServer refusing_world edited (world idle_engine)) =
     Inl ''network error''"
    by (simp add: push_edited_refused)
  from p g0 ed sr r s g1 n q show ?thesis by blast
qed

theorem synchronize_resets_flag_witness:
  "navigator_onLine online \<noteq> Some False \<and> \<not> isSyncing idle_engine \<and>
   \<not> isSyncing (snd (synchronize refusing_world online True idle_engine)) \<and>
   ((success (fst (synchronize refusing_world online True idle_engine)) \<and>
     error (fst (synchronize refusing_world online True idle_engine)) = None) \<or>
    (\<not> success (fst (synchronize refusing_world online True idle_engine)) \<and>
     updatedTasks (fst (synchronize refusing_world online True idle_engine)) = None \<and>
     (\<exists>err. error (fst (synchronize refusing_world online True idle_engine)) =
        Some (Thrown err)))) \<and>
   \<not> isSyncing (snd (synchronize locked_world online False idle_engine)) \<and>
   fst (synchronize locked_world online False idle_engine) =
     \<lparr> success = False, updatedTasks = None, error = Some (Thrown StorageFailure) \<rparr>"
proof -
  have a: "\<not> isSyncing (snd (synchronize refusing_world online True idle_engine)) \<and>
   ((success (fst (synchronize refusing_world online True idle_engine)) \<and>
     error (fst (synchronize refusing_world online True idle_engine)) = None) \<or>
    (\<not> success (fst (synchronize refusing_world online True idle_engine)) \<and>
     updatedTasks (fst (synchronize refusing_world online True idle_engine)) = None \<and>
     (\<exists>err. error (fst (synchronize refusing_world online True idle_engine)) =
        Some (Thrown err))))"
    using idle_engine_facts(2) idle_engine_facts(1) by (rule synchronize_resets_flag)
  have b: "\<not> isSyncing (snd (synchronize locked_world online False idle_engine))"
    using synchronize_resets_flag[OF idle_engine_facts(2) idle_engine_facts(1),
        where W = locked_world and f = False]
    by blast
  have c: "fst (synchronize locked_world online False idle_engine) =
     \<lparr> success = False, updatedTasks = None, error = Some (Thrown StorageFailure) \<rparr>"
    by (simp add: synchronize_idle_engine try_block_def engine_getPendingChanges_def
          locked_world_def refusing_world_def catch_block_def)
  from idle_engine_facts(1,2) a b c show ?thesis by blast
qed

theorem synchronize_while_syncing_witness:
  "isSyncing busy_engine \<and>
   synchronize refusing_world online False busy_engine =
     (\<lparr> success = False, updatedTasks = None, error = Some Sync_in_progress \<rparr>, busy_engine)"
  using synchronize_while_syncing[where e = busy_engine and W = refusing_world and b = online
      and f = False]
  by (simp add: busy_engine_def online_def)

text \<open>
  C6 as stated fails when the browser is offline: the result is \<^verbatim>\<open>Offline\<close>, not
  \<^verbatim>\<open>Sync in progress\<close>.
\<close>

theorem offline_before_busy:
  "isSyncing busy_engine \<and>
   synchronize refusing_world offline False busy_engine =
     (\<lparr> success = False, updatedTasks = None, error = Some Offline \<rparr>, busy_engine) \<and>
   error (fst (synchronize refusing_world offline False busy_engine)) \<noteq> Some Sync_in_progress"
  by (simp add: synchronize_def offline_def busy_engine_def)

theorem pull_fetch_error_is_success_witness:
  "navigator_onLine online \<noteq> Some False \<and> \<not> isSyncing idle_engine \<and> has_window online \<and>
   engine_getPendingChanges unreachable_world (idle_engine\<lparr>isSyncing := True\<rparr>) =
     (Inr [edited], \<lparr> isSyncing = True, db = [edited], lastSyncItem = None, world = 0 \<rparr>) \<and>
   fetchServerUpdates unreachable_world None (Suc 0) = (Inl ''network error'', Suc (Suc 0)) \<and>
   clock unreachable_world (Suc (Suc 0)) = (sample_readings, Suc (Suc 0)) \<and>
   synchronize unreachable_world online False idle_engine =
     (\<lparr> success = True, updatedTasks = None, error = None \<rparr>,
      \<lparr> isSyncing = False, db = [edited],
        lastSyncItem = Some ''2024-01-01T00:00:00.000Z'', world = Suc (Suc 0) \<rparr>)"
proof -
  let ?e1 = "\<lparr> isSyncing = True, db = [edited], lastSyncItem = None, world = 0::nat \<rparr>"
  have l: "push_loop unreachable_world [edited] ?e1 =
      \<lparr> isSyncing = True, db = [edited], lastSyncItem = None, world = Suc 0 \<rparr>"
    by (simp add: push_one_edited)
  have f: "fetchServerUpdates unreachable_world None (Suc 0) =
      (Inl ''network error'', Suc (Suc 0))"
    by (simp add: gateway_defs unreachable_world_def)
  have f': "fetchServerUpdates unreachable_world
        (if False then None else getLastSyncTimestamp online (push_loop unreachable_world [edited] ?e1))
        (world (push_loop unreachable_world [edited] ?e1)) = (Inl ''network error'', Suc (Suc 0))"
    unfolding l using f by (simp add: getLastSyncTimestamp_def)
  have c: "clock unreachable_world (Suc (Suc 0)) = (sample_readings, Suc (Suc 0))"
    by (simp add: unreachable_world_def)
  from pull_fetch_error_is_success[OF idle_engine_facts(2) idle_engine_facts(1)
      idle_engine_facts(3) pending_of_idle_engine(2) f' c]
  have "synchronize unreachable_world online False idle_engine =
     (\<lparr> success = True, updatedTasks = None, error = None \<rparr>,
      \<lparr> isSyncing = False, db = [edited],
        lastSyncItem = Some ''2024-01-01T00:00:00.000Z'', world = Suc (Suc 0) \<rparr>)"
    unfolding l by (simp add: sample_readings_def)
  with idle_engine_facts pending_of_idle_engine(2) f c show ?thesis by simp
qed

lemma pending_other_edit:
  "engine_getPendingChanges refusing_world (second_engine\<lparr>isSyncing := True\<rparr>) =
     (Inr [other_edit],
      \<lparr> isSyncing = True, db = [other_edit], lastSyncItem = None, world = 0 \<rparr>)"
  by (simp add: engine_getPendingChanges_def second_engine_def getPendingChanges_def
        by_sync_status_def in_key_order_def other_edit_def refusing_world_def)

lemma push_other_edit_refused:
  "syncPendingTaskWithServer refusing_world other_edit w = (Inl ''network error'', Suc w)"
  by (simp add: gateway_defs refusing_world_def other_edit_def)

lemma failed_push_on_second_engine:
  "navigator_onLine online \<noteq> Some False \<and> \<not> isSyncing second_engine \<and>
   engine_getPendingChanges refusing_world (second_engine\<lparr>isSyncing := True\<rparr>) =
     (Inr ([] @ other_edit # []),
      \<lparr> isSyncing = True, db = [other_edit], lastSyncItem = None, world = 0 \<rparr>) \<and>
   push_failed refusing_world other_edit
     \<lparr> isSyncing = True, db = [other_edit], lastSyncItem = None, world = 0 \<rparr> \<and>
   wf_store [other_edit] \<and> local_id other_edit = Some ''local_C'' \<and>
   store_get ''local_C'' [other_edit] = Some other_edit \<and>
   fetchServerUpdates refusing_world None (Suc 0) = (Inr [server_row], Suc (Suc 0)) \<and>
   \<not> addresses server_row other_edit \<and>
   store_get ''local_C'' (db (snd (synchronize refusing_world online True second_engine))) =
     Some other_edit \<and>
   sync_status other_edit = Some Pending_update"
proof -
  let ?e1 = "\<lparr> isSyncing = True, db = [other_edit], lastSyncItem = None, world = 0::nat \<rparr>"
  have on: "navigator_onLine online \<noteq> Some False" by (simp add: online_def)
  have idle: "\<not> isSyncing second_engine" by (simp add: second_engine_def)
  have pend: "engine_getPendingChanges refusing_world (second_engine\<lparr>isSyncing := True\<rparr>) =
     (Inr ([] @ other_edit # []), ?e1)"
    by (simp add: pending_other_edit)
  have fail: "push_failed refusing_world other_edit (push_loop refusing_world [] ?e1)"
    by (simp add: push_failed_def push_other_edit_refused)
  have e2: "push_loop refusing_world [] (push_one refusing_world other_edit
        (push_loop refusing_world [] ?e1)) =
      \<lparr> isSyncing = True, db = [other_edit], lastSyncItem = None, world = Suc 0 \<rparr>"
    by (simp add: push_one_def push_other_edit_refused)
  have wf: "wf_store (db (push_loop refusing_world [] ?e1))"
    by (simp add: wf_store_def other_edit_def)
  have key: "local_id other_edit = Some ''local_C''" by (simp add: other_edit_def)
  have g: "store_get ''local_C'' (db (push_loop refusing_world [] ?e1)) = Some other_edit"
    by (simp add: store_get_def other_edit_def)
  have lp: "later_pushes_spare refusing_world []
      (push_one refusing_world other_edit (push_loop refusing_world [] ?e1)) other_edit"
    by simp
  have f: "fetchServerUpdates refusing_world None (Suc 0) = (Inr [server_row], Suc (Suc 0))"
    by (simp add: gateway_defs refusing_world_def server_row_def)
  have na: "\<not> addresses server_row other_edit"
    by (simp add: addresses_def server_row_def other_edit_def)
  have pl: "pull_spares refusing_world online True
      (push_loop refusing_world [] (push_one refusing_world other_edit
        (push_loop refusing_world [] ?e1))) other_edit"
    unfolding e2 by (simp add: pull_spares_def f na)
  from failed_push_is_isolated[OF on idle pend fail, where f = True and k = "''local_C''"]
    wf key g lp pl
  have "store_get ''local_C'' (db (snd (synchronize refusing_world online True second_engine))) =
      Some other_edit"
    by blast
  moreover have "sync_status other_edit = Some Pending_update" by (simp add: other_edit_def)
  moreover from wf g have "wf_store [other_edit]"
      "store_get ''local_C'' [other_edit] = Some other_edit"
    by simp_all
  moreover from fail have "push_failed refusing_world other_edit ?e1" by simp
  ultimately show ?thesis using on idle pend key f na by simp
qed

theorem syncPendingTaskWithServer_dispatch_witness:
  "sync_status buy_milk = Some Pending_create \<and> \<not> truthy (task_id buy_milk) \<and>
   syncPendingTaskWithServer refusing_world buy_milk 0 =
     createTask refusing_world
       \<lparr> p_title = ''Buy milk'', p_description = Null, p_assigned_to = Null,
         p_status = Pending \<rparr> 0 \<and>
   sync_status edited = Some Pending_update \<and> task_id edited = Some ''srv-1'' \<and>
   ''srv-1'' \<noteq> [] \<and>
   syncPendingTaskWithServer refusing_world edited 0 =
     updateTask refusing_world ''srv-1''
       \<lparr> p_title = ''Buy oat milk'', p_description = Null, p_assigned_to = Null,
         p_status = Pending, p_is_deleted = Some False \<rparr> 0 \<and>
   sync_status removed = Some Pending_delete \<and> task_id removed = Some ''srv-1'' \<and>
   syncPendingTaskWithServer refusing_world removed 0 =
     softDeleteTask refusing_world ''srv-1'' 0 \<and>
   \<not> (sync_status stale_create = Some Pending_create \<and> \<not> truthy (task_id stale_create)) \<and>
   \<not> (sync_status stale_create = Some Pending_update \<and> truthy (task_id stale_create)) \<and>
   \<not> (sync_status stale_create = Some Pending_delete \<and> truthy (task_id stale_create)) \<and>
   syncPendingTaskWithServer refusing_world stale_create 0 =
     (Inl ''Invalid sync_status or missing ID for task local_B'', 0)"
proof -
  have a: "sync_status buy_milk = Some Pending_create \<and> \<not> truthy (task_id buy_milk)"
    by (simp add: buy_milk_def)
  have b: "sync_status edited = Some Pending_update \<and> task_id edited = Some ''srv-1'' \<and>
      ''srv-1'' \<noteq> []"
    by (simp add: edited_def rec_B_def)
  have c: "sync_status removed = Some Pending_delete \<and> task_id removed = Some ''srv-1'' \<and>
      ''srv-1'' \<noteq> []"
    by (simp add: removed_def rec_B_def)
  have d: "\<not> (sync_status stale_create = Some Pending_create \<and> \<not> truthy (task_id stale_create)) \<and>
      \<not> (sync_status stale_create = Some Pending_update \<and> truthy (task_id stale_create)) \<and>
      \<not> (sync_status stale_create = Some Pending_delete \<and> truthy (task_id stale_create))"
    by (simp add: stale_create_def rec_B_def)
  have a': "syncPendingTaskWithServer refusing_world buy_milk 0 =
     createTask refusing_world
       \<lparr> p_title = ''Buy milk'', p_description = Null, p_assigned_to = Null,
         p_status = Pending \<rparr> 0"
    using syncPendingTaskWithServer_dispatch[where t = buy_milk and W = refusing_world and w = 0] a
    by (simp add: buy_milk_def or_null_def)
  have b': "syncPendingTaskWithServer refusing_world edited 0 =
     updateTask refusing_world ''srv-1''
       \<lparr> p_title = ''Buy oat milk'', p_description = Null, p_assigned_to = Null,
         p_status = Pending, p_is_deleted = Some False \<rparr> 0"
    using syncPendingTaskWithServer_dispatch[where t = edited and i = "''srv-1''"
        and W = refusing_world and w = 0] b
    by (simp add: edited_def rec_B_def or_null_def)
  have c': "syncPendingTaskWithServer refusing_world removed 0 =
     softDeleteTask refusing_world ''srv-1'' 0"
    using syncPendingTaskWithServer_dispatch[where t = removed and i = "''srv-1''"
        and W = refusing_world and w = 0] c
    by blast
  have d': "syncPendingTaskWithServer refusing_world stale_create 0 =
     (Inl ''Invalid sync_status or missing ID for task local_B'', 0)"
    using syncPendingTaskWithServer_dispatch[where t = stale_create and W = refusing_world
        and w = 0] d
    by (simp add: task_label_def stale_create_def rec_B_def)
  from a b c d a' b' c' d' show ?thesis by blast
qed

text \<open>
  C7 as stated fails for a pending task whose status and \<^verbatim>\<open>id\<close> do not match:
  saveTask stores a \<^verbatim>\<open>pending_create\<close> task that has a server \<^verbatim>\<open>id\<close> as it is,
  getPendingChanges returns it, and syncPendingTaskWithServer makes no call for it.
\<close>

theorem pending_create_with_id_is_not_pushed:
  "saveTask sample_readings stale_create [] =
     Inr (''local_B'', [stale_create\<lparr>updated_at := Some ''2024-01-01T00:00:00.001Z''\<rparr>]) \<and>
   getPendingChanges [stale_create\<lparr>updated_at := Some ''2024-01-01T00:00:00.001Z''\<rparr>] =
     [stale_create\<lparr>updated_at := Some ''2024-01-01T00:00:00.001Z''\<rparr>] \<and>
   sync_status (stale_create\<lparr>updated_at := Some ''2024-01-01T00:00:00.001Z''\<rparr>) =
     Some Pending_create \<and>
   dispatch (stale_create\<lparr>updated_at := Some ''2024-01-01T00:00:00.001Z''\<rparr>) = None \<and>
   syncPendingTaskWithServer refusing_world
       (stale_create\<lparr>updated_at := Some ''2024-01-01T00:00:00.001Z''\<rparr>) 0 =
     (Inl ''Invalid sync_status or missing ID for task local_B'', 0)"
proof -
  have s: "saveTask sample_readings stale_create [] =
     Inr (''local_B'', [stale_create\<lparr>updated_at := Some ''2024-01-01T00:00:00.001Z''\<rparr>])"
    by (simp add: saveTask_eq violates_index_def taskToSave_def stamp_def mark_new_def
        consolidate_def index_get_def ensure_local_id_def lacks_local_id_def trim_def
        is_ws1_def is_ws2_def is_ws3_def stale_create_def rec_B_def sample_readings_def Let_def)
  have p: "getPendingChanges [stale_create\<lparr>updated_at := Some ''2024-01-01T00:00:00.001Z''\<rparr>] =
     [stale_create\<lparr>updated_at := Some ''2024-01-01T00:00:00.001Z''\<rparr>]"
    by (simp add: getPendingChanges_def by_sync_status_def in_key_order_def stale_create_def rec_B_def)
  have d: "dispatch (stale_create\<lparr>updated_at := Some ''2024-01-01T00:00:00.001Z''\<rparr>) = None"
    by (simp add: dispatch_def stale_create_def rec_B_def)
  have y: "syncPendingTaskWithServer refusing_world
       (stale_create\<lparr>updated_at := Some ''2024-01-01T00:00:00.001Z''\<rparr>) 0 =
     (Inl ''Invalid sync_status or missing ID for task local_B'', 0)"
    by (simp add: syncPendingTaskWithServer_def d) (simp add: task_label_def stale_create_def rec_B_def)
  show ?thesis using s p d y by (simp add: stale_create_def)
qed

end
